theory Spec2Isabelle
  imports Complex_Main
begin

section \<open>Data model (src/types/index.ts)\<close>

text \<open>
  A \<open>PricePoint\<close> is \<open>{ t: number; p: number }\<close>: \<open>t\<close> a Unix timestamp in whole seconds,
  \<open>p\<close> a price. Timestamps are integers. A JavaScript number is a double; the model
  writes it as a real number, a decimal literal standing for the double the same literal
  denotes in JavaScript. A price is only stored, compared with \<open>null\<close> and copied. The
  one arithmetic operation on prices, the \<open>sum += price\<close> of \<open>chartData\<close>, rounds: it
  is not the addition of real numbers, and the model takes it as a parameter \<open>jsPlus\<close>,
  so that what is proved holds for the addition of doubles.

  Names are those of the source. Where a name is already a constant of HOL or a field of
  another record it is primed or shortened: the fields \<open>id'\<close>, \<open>min'\<close>, \<open>max'\<close>, the
  variables \<open>hist\<close> (\<open>history\<close>), \<open>ty\<close> (\<open>type\<close>), \<open>cryptoProp\<close> (the property
  \<open>crypto\<close> of the component), \<open>tokenId'\<close>, \<open>symb\<close> and \<open>sumAcc\<close> (\<open>sum\<close>).
\<close>

record PricePoint =
  t :: int
  p :: real

record PriceHistory =
  history :: "PricePoint list"

datatype CryptoOption = BTC | ETH | SOL | NONE

datatype BetType = YES | NO

record SelectedBet =
  marketId :: string
  question :: string
  groupItemTitle :: string
  startDate :: int
  type :: BetType
  tokenId :: string

record ParsedMarket =
  id' :: string
  question :: string
  groupItemTitle :: string
  groupItemThreshold :: int
  endDate :: int
  startDate :: int
  yesTokenId :: string
  noTokenId :: string

text \<open>
  \<open>ChartDataPoint\<close> is \<open>{ timestamp: number; [key: string]: number }\<close>: an object used as a
  dictionary from property names to numbers, \<open>timestamp\<close> being one of the properties.
\<close>

type_synonym ChartDataPoint = "string \<rightharpoonup> real"

text \<open>
  The value of a \<open>CryptoOption\<close> and of a bet type as the string it is in TypeScript
  (used as a property name and inside messages).
\<close>

fun cryptoString :: "CryptoOption \<Rightarrow> string" where
  "cryptoString BTC = ''BTC''"
| "cryptoString ETH = ''ETH''"
| "cryptoString SOL = ''SOL''"
| "cryptoString NONE = ''NONE''"

fun typeString :: "BetType \<Rightarrow> string" where
  "typeString YES = ''YES''"
| "typeString NO = ''NO''"

subsection \<open>JavaScript \<open>Map\<close>: keys in insertion order\<close>

text \<open>
  A \<open>Map\<close> is an association list with one entry per key, in insertion order:
  \<open>set\<close> on a key that is present replaces the value in place, on a new key it appends.
\<close>

type_synonym ('k, 'v) JsMap = "('k \<times> 'v) list"

definition Map_has :: "('k, 'v) JsMap \<Rightarrow> 'k \<Rightarrow> bool" where
  "Map_has m k \<longleftrightarrow> k \<in> set (map fst m)"

definition Map_get :: "('k, 'v) JsMap \<Rightarrow> 'k \<Rightarrow> 'v option" where
  "Map_get m k = map_of m k"

fun Map_set :: "('k, 'v) JsMap \<Rightarrow> 'k \<Rightarrow> 'v \<Rightarrow> ('k, 'v) JsMap" where
  "Map_set [] k v = [(k, v)]"
| "Map_set (e # m) k v = (if fst e = k then (k, v) # m else e # Map_set m k v)"

definition Map_delete :: "('k, 'v) JsMap \<Rightarrow> 'k \<Rightarrow> ('k, 'v) JsMap" where
  "Map_delete m k = filter (\<lambda>e. fst e \<noteq> k) m"

definition Map_keys :: "('k, 'v) JsMap \<Rightarrow> 'k list" where
  "Map_keys m = map fst m"

subsection \<open>Promises\<close>

text \<open>
  An awaited promise is fulfilled with a value, rejected (the reason is only logged by
  the code), or stays pending for ever. \<open>Promise.all\<close> rejects as soon as one member
  rejects, and is fulfilled with all the values, in order, once every member is.
\<close>

datatype 'a Promise = Fulfilled 'a | Rejected | Pending

fun promiseAll :: "'a Promise list \<Rightarrow> 'a list Promise" where
  "promiseAll [] = Fulfilled []"
| "promiseAll (x # xs) =
     (case x of
        Rejected \<Rightarrow> Rejected
      | Fulfilled v \<Rightarrow>
          (case promiseAll xs of
             Fulfilled vs \<Rightarrow> Fulfilled (v # vs)
           | Rejected \<Rightarrow> Rejected
           | Pending \<Rightarrow> Pending)
      | Pending \<Rightarrow>
          (case promiseAll xs of
             Rejected \<Rightarrow> Rejected
           | Fulfilled vs \<Rightarrow> Pending
           | Pending \<Rightarrow> Pending))"

section \<open>The component state (src/components/SecondScreen.tsx, lines 87--105)\<close>

record TimeRange =
  min' :: int
  max' :: int

text \<open>The cache reference holds \<open>{ crypto, min, max }\<close> or \<open>null\<close>.\<close>

record CryptoCache = TimeRange +
  crypto :: CryptoOption

record ScreenState =
  selectedBets :: "(string, SelectedBet) JsMap"
  priceHistories :: "(string, PricePoint list) JsMap"
  cryptoPrices :: "PricePoint list"
  loadingBets :: "string set"
  loadingCrypto :: bool
  error :: "string option"
  showSum :: bool
  showCryptoLine :: bool
  cryptoCacheRef :: "CryptoCache option"

definition initialState :: ScreenState where
  "initialState =
     \<lparr>selectedBets = [], priceHistories = [], cryptoPrices = [], loadingBets = {},
      loadingCrypto = False, error = None, showSum = True, showCryptoLine = True,
      cryptoCacheRef = None\<rparr>"

section \<open>Nearest sample (\<open>findNearestPrice\<close>, lines 42--79)\<close>

definition generateBetKey :: "string \<Rightarrow> BetType \<Rightarrow> string" where
  "generateBetKey marketId' ty = marketId' @ ''-'' @ typeString ty"

text \<open>
  The binary search loop \<open>while (left < right)\<close>. It is entered with
  \<open>right = history.length\<close>, so \<open>mid < history.length\<close> at every read.
\<close>

function bsearch :: "PricePoint list \<Rightarrow> int \<Rightarrow> nat \<Rightarrow> nat \<Rightarrow> nat" where
  "bsearch hist targetTimestamp left right =
     (if left < right then
        (let mid = (left + right) div 2 in
         if t (hist ! mid) < targetTimestamp
         then bsearch hist targetTimestamp (mid + 1) right
         else bsearch hist targetTimestamp left mid)
      else left)"
  by pat_completeness auto
termination
  by (relation "measure (\<lambda>(hist, targetTimestamp, left, right). right - left)") auto

declare bsearch.simps [simp del]

text \<open>
  The candidates: the element at the insertion point first, then the one before it.
\<close>

definition candidatesAt :: "PricePoint list \<Rightarrow> nat \<Rightarrow> PricePoint list" where
  "candidatesAt hist left =
     (if left < length hist then [hist ! left] else []) @
     (if left > 0 then [hist ! (left - 1)] else [])"

text \<open>
  The loop over the candidates, on the pair \<open>(nearest, minDelta)\<close>; \<open>minDelta = None\<close>
  stands for \<open>Infinity\<close>, which every delta is below.
\<close>

fun scanCandidates ::
  "int \<Rightarrow> int \<Rightarrow> PricePoint list \<Rightarrow> PricePoint option \<times> int option
     \<Rightarrow> PricePoint option \<times> int option" where
  "scanCandidates targetTimestamp maxDeltaSeconds [] acc = acc"
| "scanCandidates targetTimestamp maxDeltaSeconds (point # rest) (nearest, minDelta) =
     (let delta = \<bar>t point - targetTimestamp\<bar> in
      if (case minDelta of None \<Rightarrow> True | Some m \<Rightarrow> delta < m) \<and> delta \<le> maxDeltaSeconds
      then scanCandidates targetTimestamp maxDeltaSeconds rest (Some point, Some delta)
      else scanCandidates targetTimestamp maxDeltaSeconds rest (nearest, minDelta))"

text \<open>
  \<open>findNearestPrice(history, targetTimestamp, maxDeltaSeconds)\<close>; \<open>None\<close> is \<open>null\<close>.
  The default \<open>maxDeltaSeconds = 270\<close> is written out at the call that relies on it.
\<close>

definition findNearestPrice :: "PricePoint list \<Rightarrow> int \<Rightarrow> int \<Rightarrow> real option" where
  "findNearestPrice hist targetTimestamp maxDeltaSeconds =
     (if length hist = 0 then None
      else
        (let left = bsearch hist targetTimestamp 0 (length hist);
             candidates = candidatesAt hist left
         in case fst (scanCandidates targetTimestamp maxDeltaSeconds candidates (None, None)) of
              None \<Rightarrow> None
            | Some nearest \<Rightarrow> Some (p nearest)))"

section \<open>Selecting a bet (\<open>handleBetToggle\<close>, lines 107--163)\<close>

text \<open>
  \<open>fetchPriceHistory\<close> (src/api/polymarket) is a parameter: a function from the token
  id, the market's start date (the code passes its decimal rendering) and the fidelity to
  the promise's outcome. The result pairs the new state with the fetches issued.
  State updates are applied in the order the code issues them.
\<close>

definition handleBetToggle ::
  "(string \<Rightarrow> int \<Rightarrow> int \<Rightarrow> PriceHistory Promise) \<Rightarrow> ParsedMarket \<Rightarrow> BetType \<Rightarrow> ScreenState
     \<Rightarrow> ScreenState \<times> (string \<times> int \<times> int) list" where
  "handleBetToggle fetchPriceHistory market ty s =
     (let betKey = generateBetKey (id' market) ty;
          tokenId' = (case ty of YES \<Rightarrow> yesTokenId market | NO \<Rightarrow> noTokenId market);
          s1 = s\<lparr>selectedBets :=
                  (if Map_has (selectedBets s) betKey
                   then Map_delete (selectedBets s) betKey
                   else Map_set (selectedBets s) betKey
                          \<lparr>marketId = id' market,
                           SelectedBet.question = ParsedMarket.question market,
                           SelectedBet.groupItemTitle = ParsedMarket.groupItemTitle market,
                           SelectedBet.startDate = ParsedMarket.startDate market,
                           type = ty,
                           tokenId = tokenId'\<rparr>)\<rparr>
      in if \<not> Map_has (selectedBets s) betKey \<and> \<not> Map_has (priceHistories s) betKey then
           (let s2 = s1\<lparr>loadingBets := insert betKey (loadingBets s1), error := None\<rparr>;
                call = (tokenId', ParsedMarket.startDate market, 10)
            in case fetchPriceHistory tokenId' (ParsedMarket.startDate market) 10 of
                 Fulfilled h \<Rightarrow>
                   (s2\<lparr>priceHistories :=
                         Map_set (priceHistories s2) betKey (sort_key t (history h)),
                       loadingBets := loadingBets s2 - {betKey}\<rparr>, [call])
               | Rejected \<Rightarrow>
                   (s2\<lparr>error := Some (''Failed to fetch price history for ''
                                       @ ParsedMarket.question market
                                       @ '' ('' @ typeString ty @ '')''),
                       selectedBets := Map_delete (selectedBets s2) betKey,
                       loadingBets := loadingBets s2 - {betKey}\<rparr>, [call])
               | Pending \<Rightarrow> (s2, [call]))
         else (s1, []))"

section \<open>The secondary series (\<open>fetchCryptoPriceHistory\<close>, src/api/binance.ts)\<close>

definition CRYPTO_SYMBOLS :: "CryptoOption \<rightharpoonup> string" where
  "CRYPTO_SYMBOLS = [BTC \<mapsto> ''BTCUSDT'', ETH \<mapsto> ''ETHUSDT'', SOL \<mapsto> ''SOLUSDT'']"

text \<open>
  A candle of the response, reduced to the two entries the code reads: \<open>kline[0]\<close>, the
  open time in milliseconds, and \<open>parseFloat(kline[4])\<close>, the close price.
\<close>

record Kline =
  openTime :: int
  closePrice :: real

record KlinesParams =
  symbol :: "string option"
  interval :: string
  startTime :: int
  endTime :: int
  limit :: int

text \<open>
  The pagination loop \<open>while (currentStartTime < endTimeMs)\<close>; \<open>axiosGet\<close> is the HTTP
  call. The loop need not end (the upstream may keep answering with candles that do not
  advance \<open>currentStartTime\<close> past \<open>endTimeMs\<close>): \<open>None\<close> is the run that never leaves it.
\<close>

partial_function (option) klinesLoop ::
  "(KlinesParams \<Rightarrow> Kline list Promise) \<Rightarrow> string option \<Rightarrow> int \<Rightarrow> int \<Rightarrow> PricePoint list
     \<Rightarrow> (PricePoint list Promise) option" where
  "klinesLoop axiosGet symb currentStartTime endTimeMs allKlines =
     (if currentStartTime < endTimeMs then
        (case axiosGet \<lparr>symbol = symb, interval = ''5m'', startTime = currentStartTime,
                        endTime = endTimeMs, limit = 1000\<rparr> of
           Pending \<Rightarrow> Some Pending
         | Rejected \<Rightarrow> Some Rejected
         | Fulfilled klines \<Rightarrow>
             if length klines = 0 then Some (Fulfilled allKlines)
             else klinesLoop axiosGet symb (openTime (last klines) + 60000) endTimeMs
                    (allKlines @ map (\<lambda>kline. \<lparr>t = openTime kline div 1000, p = closePrice kline\<rparr>) klines))
      else Some (Fulfilled allKlines))"

definition fetchCryptoPriceHistory ::
  "(KlinesParams \<Rightarrow> Kline list Promise) \<Rightarrow> CryptoOption \<Rightarrow> int \<Rightarrow> int \<Rightarrow> PricePoint list Promise" where
  "fetchCryptoPriceHistory axiosGet cryptoProp startTimeS endTimeS =
     (case klinesLoop axiosGet (CRYPTO_SYMBOLS cryptoProp) (startTimeS * 1000) (endTimeS * 1000) [] of
        None \<Rightarrow> Pending
      | Some Pending \<Rightarrow> Pending
      | Some Rejected \<Rightarrow> Rejected
      | Some (Fulfilled allKlines) \<Rightarrow> Fulfilled (sort_key t allKlines))"

section \<open>The range cache (\<open>fetchCrypto\<close> and its effect, lines 185--276)\<close>

text \<open>
  \<open>allPrices.filter((price, index, arr) => index === 0 || price.t !== arr[index - 1].t)\<close>
\<close>

definition dedupedPrices :: "PricePoint list \<Rightarrow> PricePoint list" where
  "dedupedPrices arr =
     map (\<lambda>index. arr ! index)
       (filter (\<lambda>index. index = 0 \<or> t (arr ! index) \<noteq> t (arr ! (index - 1))) [0..<length arr])"

definition fetchFailedMessage :: "CryptoOption \<Rightarrow> string" where
  "fetchFailedMessage cryptoProp = ''Failed to fetch '' @ cryptoString cryptoProp @ '' price data''"

text \<open>The first branch: fetch the entire range and replace the series and the cache.\<close>

definition fetchEntireRange ::
  "(CryptoOption \<Rightarrow> int \<Rightarrow> int \<Rightarrow> PricePoint list Promise) \<Rightarrow> CryptoOption \<Rightarrow> TimeRange
     \<Rightarrow> ScreenState \<Rightarrow> ScreenState \<times> (CryptoOption \<times> int \<times> int) list" where
  "fetchEntireRange fetchHistory cryptoProp timeRange s =
     (let s1 = s\<lparr>loadingCrypto := True\<rparr>;
          call = (cryptoProp, min' timeRange, max' timeRange)
      in case fetchHistory cryptoProp (min' timeRange) (max' timeRange) of
           Fulfilled prices \<Rightarrow>
             (s1\<lparr>cryptoPrices := prices,
                 cryptoCacheRef := Some \<lparr>min' = min' timeRange, max' = max' timeRange,
                                         crypto = cryptoProp\<rparr>,
                 loadingCrypto := False\<rparr>, [call])
         | Rejected \<Rightarrow>
             (s1\<lparr>error := Some (fetchFailedMessage cryptoProp), loadingCrypto := False\<rparr>, [call])
         | Pending \<Rightarrow> (s1, [call]))"

text \<open>The ranges missing from the cached interval, the one before it first.\<close>

definition fetchRanges :: "TimeRange \<Rightarrow> CryptoCache \<Rightarrow> TimeRange list" where
  "fetchRanges timeRange cache =
     (if min' timeRange < min' cache then [\<lparr>min' = min' timeRange, max' = min' cache\<rparr>] else []) @
     (if max' timeRange > max' cache then [\<lparr>min' = max' cache, max' = max' timeRange\<rparr>] else [])"

text \<open>
  \<open>fetchCrypto\<close>, over the fetch function as a parameter; the result pairs the new state
  with the fetches issued, as \<open>(crypto, startTime, endTime)\<close>.
\<close>

definition fetchCrypto ::
  "(CryptoOption \<Rightarrow> int \<Rightarrow> int \<Rightarrow> PricePoint list Promise) \<Rightarrow> CryptoOption \<Rightarrow> TimeRange
     \<Rightarrow> ScreenState \<Rightarrow> ScreenState \<times> (CryptoOption \<times> int \<times> int) list" where
  "fetchCrypto fetchHistory cryptoProp timeRange s =
     (case cryptoCacheRef s of
        None \<Rightarrow> fetchEntireRange fetchHistory cryptoProp timeRange s
      | Some cache \<Rightarrow>
          if crypto cache \<noteq> cryptoProp \<or> length (cryptoPrices s) = 0
          then fetchEntireRange fetchHistory cryptoProp timeRange s
          else if min' timeRange \<ge> min' cache \<and> max' timeRange \<le> max' cache then (s, [])
          else
            (let ranges = fetchRanges timeRange cache in
             if length ranges = 0 then (s, [])
             else
               (let s1 = s\<lparr>loadingCrypto := True\<rparr>;
                    calls = map (\<lambda>range. (cryptoProp, min' range, max' range)) ranges
                in case promiseAll (map (\<lambda>range. fetchHistory cryptoProp (min' range) (max' range)) ranges) of
                     Fulfilled newPricesArrays \<Rightarrow>
                       (let allPrices = sort_key t (cryptoPrices s @ concat newPricesArrays)
                        in (s1\<lparr>cryptoPrices := dedupedPrices allPrices,
                               cryptoCacheRef :=
                                 Some \<lparr>min' = min (min' timeRange) (min' cache),
                                       max' = max (max' timeRange) (max' cache),
                                       crypto = cryptoProp\<rparr>,
                               loadingCrypto := False\<rparr>, calls))
                   | Rejected \<Rightarrow>
                       (s1\<lparr>error := Some (fetchFailedMessage cryptoProp), loadingCrypto := False\<rparr>,
                        calls)
                   | Pending \<Rightarrow> (s1, calls))))"

text \<open>The effect that runs \<open>fetchCrypto\<close>; \<open>timeRange = None\<close> is \<open>null\<close>.\<close>

definition cryptoEffect ::
  "(CryptoOption \<Rightarrow> int \<Rightarrow> int \<Rightarrow> PricePoint list Promise) \<Rightarrow> CryptoOption \<Rightarrow> TimeRange option
     \<Rightarrow> ScreenState \<Rightarrow> ScreenState \<times> (CryptoOption \<times> int \<times> int) list" where
  "cryptoEffect fetchHistory cryptoProp timeRange s =
     (case timeRange of
        None \<Rightarrow>
          ((if length (cryptoPrices s) > 0 then s\<lparr>cryptoPrices := []\<rparr> else s)
             \<lparr>cryptoCacheRef := None\<rparr>, [])
      | Some tr \<Rightarrow>
          if cryptoProp = NONE
          then ((if length (cryptoPrices s) > 0 then s\<lparr>cryptoPrices := []\<rparr> else s)
                  \<lparr>cryptoCacheRef := None\<rparr>, [])
          else fetchCrypto fetchHistory cryptoProp tr s)"

section \<open>Building the rows (\<open>chartData\<close>, lines 278--339)\<close>

text \<open>
  The keys of \<open>dataMap\<close> in insertion order: a timestamp is added when the map does not
  have it yet, with the data point \<open>{ timestamp: point.t }\<close>.
\<close>

definition addTimestamps :: "PricePoint list \<Rightarrow> int list \<Rightarrow> int list" where
  "addTimestamps points keys =
     fold (\<lambda>point ks. if t point \<in> set ks then ks else ks @ [t point]) points keys"

definition chartTimestamps :: "CryptoOption \<Rightarrow> ScreenState \<Rightarrow> int list" where
  "chartTimestamps cryptoProp s =
     (let betKeys = Map_keys (selectedBets s);
          keys1 = fold (\<lambda>betKey ks. case Map_get (priceHistories s) betKey of
                                       None \<Rightarrow> ks
                                     | Some h \<Rightarrow> addTimestamps h ks) betKeys [];
          keys2 = (if cryptoProp \<noteq> NONE \<and> length (cryptoPrices s) > 0
                   then addTimestamps (cryptoPrices s) keys1 else keys1)
      in sort keys2)"

text \<open>
  The body of \<open>for (const betKey of betKeys)\<close>, on the data point and the running
  \<open>sum\<close> and \<open>validBetsForSum\<close>: a key without a stored history, or whose history has no
  sample within 270 seconds of the timestamp, changes nothing. \<open>jsPlus\<close> is the addition
  of two JavaScript numbers, \<open>sum += price\<close> being \<open>sum = jsPlus sum price\<close>.
\<close>

definition addBetPrice ::
  "(real \<Rightarrow> real \<Rightarrow> real) \<Rightarrow> ScreenState \<Rightarrow> int \<Rightarrow> string
     \<Rightarrow> ChartDataPoint \<times> real \<times> nat \<Rightarrow> ChartDataPoint \<times> real \<times> nat" where
  "addBetPrice jsPlus s timestamp betKey acc =
     (case acc of (dataPoint, sumAcc, validBetsForSum) \<Rightarrow>
        (case Map_get (priceHistories s) betKey of
           None \<Rightarrow> (dataPoint, sumAcc, validBetsForSum)
         | Some h \<Rightarrow>
             (case findNearestPrice h timestamp 270 of
                None \<Rightarrow> (dataPoint, sumAcc, validBetsForSum)
              | Some price \<Rightarrow>
                  (dataPoint(betKey \<mapsto> price), jsPlus sumAcc price, validBetsForSum + 1))))"

text \<open>
  The body of \<open>for (const timestamp of timestamps)\<close>: the data point of one timestamp,
  starting from \<open>{ timestamp }\<close>.
\<close>

definition fillDataPoint ::
  "(real \<Rightarrow> real \<Rightarrow> real) \<Rightarrow> CryptoOption \<Rightarrow> ScreenState \<Rightarrow> int \<Rightarrow> ChartDataPoint" where
  "fillDataPoint jsPlus cryptoProp s timestamp =
     (let betKeys = Map_keys (selectedBets s);
          (dataPoint1, sumAcc, validBetsForSum) =
             fold (addBetPrice jsPlus s timestamp) betKeys
               ([''timestamp'' \<mapsto> of_int timestamp], 0, 0);
          dataPoint2 = (if length betKeys > 1 \<and> validBetsForSum = length betKeys
                        then dataPoint1(''sum'' \<mapsto> sumAcc) else dataPoint1)
      in if cryptoProp \<noteq> NONE \<and> length (cryptoPrices s) > 0
         then (case findNearestPrice (cryptoPrices s) timestamp 120 of
                 None \<Rightarrow> dataPoint2
               | Some cryptoPrice \<Rightarrow> dataPoint2(cryptoString cryptoProp \<mapsto> cryptoPrice))
         else dataPoint2)"

definition chartData ::
  "(real \<Rightarrow> real \<Rightarrow> real) \<Rightarrow> CryptoOption \<Rightarrow> ScreenState \<Rightarrow> ChartDataPoint list" where
  "chartData jsPlus cryptoProp s =
     map (fillDataPoint jsPlus cryptoProp s) (chartTimestamps cryptoProp s)"

section \<open>Predicates of the statements and concrete inputs\<close>

text \<open>
  \<open>k\<close> is the insertion point of the target in the series: the samples before index \<open>k\<close>
  are earlier than the target, the samples from \<open>k\<close> on are not.
\<close>

definition insertionPoint :: "PricePoint list \<Rightarrow> int \<Rightarrow> nat \<Rightarrow> bool" where
  "insertionPoint hist tg k \<longleftrightarrow>
     k \<le> length hist \<and> (\<forall>i<k. t (hist ! i) < tg) \<and> (\<forall>i. k \<le> i \<and> i < length hist \<longrightarrow> tg \<le> t (hist ! i))"

text \<open>
  The invariant of the candidate loop: \<open>minDelta\<close> is \<open>Infinity\<close> exactly while \<open>nearest\<close>
  is \<open>null\<close>, and otherwise it is the delta of \<open>nearest\<close>, within the tolerance.
\<close>

definition accOk :: "int \<Rightarrow> int \<Rightarrow> PricePoint option \<times> int option \<Rightarrow> bool" where
  "accOk tg w acc \<longleftrightarrow>
     (case acc of
        (None, m) \<Rightarrow> m = None
      | (Some a, m) \<Rightarrow> m = Some \<bar>t a - tg\<bar> \<and> \<bar>t a - tg\<bar> \<le> w)"

text \<open>
  Two properties of the upstream of \<open>fetchCryptoPriceHistory\<close>: the last candle of a
  page that is not empty does not open before the requested start time (so the next page
  starts at least a minute later), and every request is answered with a page.
\<close>

definition upstreamAdvances :: "(KlinesParams \<Rightarrow> Kline list Promise) \<Rightarrow> bool" where
  "upstreamAdvances axiosGet \<longleftrightarrow>
     (\<forall>params klines. axiosGet params = Fulfilled klines \<and> klines \<noteq> []
        \<longrightarrow> startTime params \<le> openTime (last klines))"

definition upstreamAnswers :: "(KlinesParams \<Rightarrow> Kline list Promise) \<Rightarrow> bool" where
  "upstreamAnswers axiosGet \<longleftrightarrow> (\<forall>params. \<exists>klines. axiosGet params = Fulfilled klines)"

text \<open>
  The value a selected series yields at a timestamp: the nearest sample of its stored
  history within the primary tolerance, if the history is stored and has one.
\<close>

definition seriesValueAt :: "ScreenState \<Rightarrow> int \<Rightarrow> string \<Rightarrow> real option" where
  "seriesValueAt s timestamp betKey =
     (case Map_get (priceHistories s) betKey of
        None \<Rightarrow> None
      | Some h \<Rightarrow> findNearestPrice h timestamp 270)"

definition betA :: SelectedBet where
  "betA = \<lparr>marketId = ''A'', question = ''Will A happen?'', groupItemTitle = ''A'',
           startDate = 0, type = YES, tokenId = ''tokenA''\<rparr>"

definition betB :: SelectedBet where
  "betB = \<lparr>marketId = ''B'', question = ''Will B happen?'', groupItemTitle = ''B'',
           startDate = 0, type = YES, tokenId = ''tokenB''\<rparr>"

text \<open>Two selected series, \<open>A = {10: 0.3, 20: 0.4}\<close> and \<open>B = {10: 0.6}\<close>, no secondary series.\<close>

definition stateAB :: ScreenState where
  "stateAB = initialState
     \<lparr>selectedBets := [(''A-YES'', betA), (''B-YES'', betB)],
      priceHistories := [(''A-YES'', [\<lparr>t = 10, p = 0.3\<rparr>, \<lparr>t = 20, p = 0.4\<rparr>]),
                         (''B-YES'', [\<lparr>t = 10, p = 0.6\<rparr>])]\<rparr>"

text \<open>A sorted series of three samples.\<close>

definition seriesAB :: "PricePoint list" where
  "seriesAB = [\<lparr>t = 10, p = 0.3\<rparr>, \<lparr>t = 20, p = 0.4\<rparr>, \<lparr>t = 35, p = 0.5\<rparr>]"

text \<open>
  A state whose cache covers \<open>[100, 200]\<close> for \<open>BTC\<close> with two stored samples, fetch
  functions for the two sub-ranges around it (one of them with a failing second range),
  an upstream without data, and the state after a first fetch from that upstream.
\<close>

definition stateCovered :: ScreenState where
  "stateCovered = initialState
     \<lparr>cryptoPrices := [\<lparr>t = 100, p = 30000\<rparr>, \<lparr>t = 200, p = 30100\<rparr>],
      cryptoCacheRef := Some \<lparr>min' = 100, max' = 200, crypto = BTC\<rparr>\<rparr>"

definition fetchDeltas :: "CryptoOption \<Rightarrow> int \<Rightarrow> int \<Rightarrow> PricePoint list Promise" where
  "fetchDeltas c a b =
     (if a = 50 then Fulfilled [\<lparr>t = 50, p = 29900\<rparr>, \<lparr>t = 100, p = 30000\<rparr>]
      else Fulfilled [\<lparr>t = 200, p = 30100\<rparr>, \<lparr>t = 250, p = 30200\<rparr>])"

definition fetchSecondFails :: "CryptoOption \<Rightarrow> int \<Rightarrow> int \<Rightarrow> PricePoint list Promise" where
  "fetchSecondFails c a b =
     (if a = 50 then Fulfilled [\<lparr>t = 50, p = 29900\<rparr>, \<lparr>t = 100, p = 30000\<rparr>] else Rejected)"

definition fetchNothing :: "CryptoOption \<Rightarrow> int \<Rightarrow> int \<Rightarrow> PricePoint list Promise" where
  "fetchNothing c a b = Fulfilled []"

definition stateEmptyCoverage :: ScreenState where
  "stateEmptyCoverage = fst (fetchCrypto fetchNothing BTC \<lparr>min' = 100, max' = 200\<rparr> initialState)"

text \<open>An upstream that answers the first page with two candles, newest first, then nothing.\<close>

definition axiosTwoCandles :: "KlinesParams \<Rightarrow> Kline list Promise" where
  "axiosTwoCandles params =
     (if startTime params \<le> 100000
      then Fulfilled [\<lparr>openTime = 400000, closePrice = 30100\<rparr>, \<lparr>openTime = 100000, closePrice = 30000\<rparr>]
      else Fulfilled [])"

text \<open>
  An upstream that refuses every request, and a state with one series selected and the
  cache covering its span \<open>[100, 200]\<close> for \<open>BTC\<close>.
\<close>

definition axiosRejects :: "KlinesParams \<Rightarrow> Kline list Promise" where
  "axiosRejects params = Rejected"

definition stateSwitch :: ScreenState where
  "stateSwitch = initialState
     \<lparr>selectedBets := [(''A-YES'', betA)],
      priceHistories := [(''A-YES'', [\<lparr>t = 100, p = 0.3\<rparr>, \<lparr>t = 200, p = 0.4\<rparr>])],
      cryptoPrices := [\<lparr>t = 100, p = 30000\<rparr>, \<lparr>t = 200, p = 30100\<rparr>],
      cryptoCacheRef := Some \<lparr>min' = 100, max' = 200, crypto = BTC\<rparr>\<rparr>"

text \<open>
  Two markets, a state with the series of \<open>A\<close> selected and stored, and a fetch that fails.
\<close>

definition marketA :: ParsedMarket where
  "marketA = \<lparr>id' = ''A'', question = ''Will A happen?'', groupItemTitle = ''A'',
              groupItemThreshold = 0, endDate = 1000, startDate = 0,
              yesTokenId = ''tokenA'', noTokenId = ''tokenNotA''\<rparr>"

definition marketB :: ParsedMarket where
  "marketB = \<lparr>id' = ''B'', question = ''Will B happen?'', groupItemTitle = ''B'',
              groupItemThreshold = 0, endDate = 1000, startDate = 0,
              yesTokenId = ''tokenB'', noTokenId = ''tokenNotB''\<rparr>"

definition stateA :: ScreenState where
  "stateA = initialState
     \<lparr>selectedBets := [(''A-YES'', betA)],
      priceHistories := [(''A-YES'', [\<lparr>t = 10, p = 0.3\<rparr>, \<lparr>t = 20, p = 0.4\<rparr>])]\<rparr>"

definition fetchRejects :: "string \<Rightarrow> int \<Rightarrow> int \<Rightarrow> PriceHistory Promise" where
  "fetchRejects tok since fidelity = Rejected"

section \<open>The nearest sample is within the tolerance and nearest\<close>

text \<open>
  The search reads the series only below \<open>right\<close>: started with \<open>right = length hist\<close>,
  every read \<open>hist ! mid\<close> is inside the array.
\<close>

lemma bsearch_reads_below_right:
  "take right hist = take right hist' \<Longrightarrow>
   bsearch hist tg left right = bsearch hist' tg left right"
proof (induction hist tg left right arbitrary: hist' rule: bsearch.induct)
  case (1 hist tg left right)
  show ?case
  proof (cases "left < right")
    case False
    then show ?thesis by (simp add: bsearch.simps)
  next
    case True
    let ?mid = "(left + right) div 2"
    from True have m: "?mid < right" by auto
    have "hist ! ?mid = take right hist ! ?mid" using m by simp
    also have "\<dots> = hist' ! ?mid" using m "1.prems" by simp
    finally have same: "hist ! ?mid = hist' ! ?mid" .
    have "take ?mid (take right hist) = take ?mid (take right hist')" using "1.prems" by simp
    with m have tm: "take ?mid hist = take ?mid hist'" by (simp add: min_def)
    show ?thesis
    proof (cases "t (hist ! ?mid) < tg")
      case below: True
      from "1.IH"(1)[OF True refl below "1.prems"] True below same
      show ?thesis by (subst (1 2) bsearch.simps) simp
    next
      case above: False
      from "1.IH"(2)[OF True refl above tm] True above same
      show ?thesis by (subst (1 2) bsearch.simps) simp
    qed
  qed
qed

lemma bsearch_bounds:
  "left \<le> right \<Longrightarrow> left \<le> bsearch hist tg left right \<and> bsearch hist tg left right \<le> right"
proof (induction hist tg left right rule: bsearch.induct)
  case (1 hist tg left right)
  show ?case
  proof (cases "left < right")
    case False
    with "1.prems" show ?thesis by (simp add: bsearch.simps)
  next
    case True
    let ?mid = "(left + right) div 2"
    from True have m: "left \<le> ?mid" "?mid < right" by auto
    show ?thesis
    proof (cases "t (hist ! ?mid) < tg")
      case below: True
      from "1.IH"(1)[OF True refl below] m
      have "?mid + 1 \<le> bsearch hist tg (?mid + 1) right \<and> bsearch hist tg (?mid + 1) right \<le> right"
        by simp
      with True below m show ?thesis by (subst (1 2) bsearch.simps) simp
    next
      case above: False
      from "1.IH"(2)[OF True refl above] m
      have "left \<le> bsearch hist tg left ?mid \<and> bsearch hist tg left ?mid \<le> ?mid"
        by simp
      with True above m show ?thesis by (subst (1 2) bsearch.simps) simp
    qed
  qed
qed

lemma bsearch_partition:
  "sorted (map t hist) \<Longrightarrow> left \<le> right \<Longrightarrow> right \<le> length hist \<Longrightarrow>
   \<forall>i<left. t (hist ! i) < tg \<Longrightarrow>
   \<forall>i. right \<le> i \<and> i < length hist \<longrightarrow> tg \<le> t (hist ! i) \<Longrightarrow>
   insertionPoint hist tg (bsearch hist tg left right)"
proof (induction hist tg left right rule: bsearch.induct)
  case (1 hist tg left right)
  have mono: "\<And>i j. i \<le> j \<Longrightarrow> j < length hist \<Longrightarrow> t (hist ! i) \<le> t (hist ! j)"
    using "1.prems"(1) by (simp add: sorted_iff_nth_mono)
  show ?case
  proof (cases "left < right")
    case False
    with "1.prems" have "left = right" by simp
    with "1.prems" show ?thesis by (simp add: bsearch.simps insertionPoint_def)
  next
    case True
    let ?mid = "(left + right) div 2"
    from True "1.prems" have m: "left \<le> ?mid" "?mid < right" "?mid < length hist" by auto
    show ?thesis
    proof (cases "t (hist ! ?mid) < tg")
      case below: True
      have lo: "\<forall>i<?mid + 1. t (hist ! i) < tg"
      proof (intro allI impI)
        fix i assume "i < ?mid + 1"
        then have "t (hist ! i) \<le> t (hist ! ?mid)" using mono m by simp
        with below show "t (hist ! i) < tg" by simp
      qed
      have "insertionPoint hist tg (bsearch hist tg (?mid + 1) right)"
        using "1.IH"(1)[OF True refl below "1.prems"(1) _ "1.prems"(3) lo "1.prems"(5)] m by simp
      with True below show ?thesis by (subst bsearch.simps) simp
    next
      case above: False
      have hi: "\<forall>i. ?mid \<le> i \<and> i < length hist \<longrightarrow> tg \<le> t (hist ! i)"
      proof (intro allI impI)
        fix i assume "?mid \<le> i \<and> i < length hist"
        then have "t (hist ! ?mid) \<le> t (hist ! i)" using mono by simp
        with above show "tg \<le> t (hist ! i)" by simp
      qed
      have "insertionPoint hist tg (bsearch hist tg left ?mid)"
        using "1.IH"(2)[OF True refl above "1.prems"(1) _ _ "1.prems"(4) hi] m by simp
      with True above show ?thesis by (subst bsearch.simps) simp
    qed
  qed
qed

lemma bsearch_insertionPoint:
  "sorted (map t hist) \<Longrightarrow> insertionPoint hist tg (bsearch hist tg 0 (length hist))"
  by (rule bsearch_partition) simp_all


lemma scanCandidates_min:
  "accOk tg w acc \<Longrightarrow> fst (scanCandidates tg w cs acc) = Some x \<Longrightarrow>
     (x \<in> set cs \<or> fst acc = Some x) \<and> \<bar>t x - tg\<bar> \<le> w \<and>
     (\<forall>c\<in>set cs. \<bar>t x - tg\<bar> \<le> \<bar>t c - tg\<bar>) \<and>
     (\<forall>a. fst acc = Some a \<longrightarrow> \<bar>t x - tg\<bar> \<le> \<bar>t a - tg\<bar>)"
proof (induction cs arbitrary: acc)
  case Nil
  then show ?case by (cases acc) (auto simp: accOk_def split: option.splits)
next
  case (Cons c cs)
  obtain n m where acc: "acc = (n, m)" by (cases acc)
  let ?d = "\<bar>t c - tg\<bar>"
  show ?case
  proof (cases "(case m of None \<Rightarrow> True | Some k \<Rightarrow> ?d < k) \<and> ?d \<le> w")
    case True
    then have ok: "accOk tg w (Some c, Some ?d)" by (simp add: accOk_def)
    from True Cons.prems(2) acc
    have res: "fst (scanCandidates tg w cs (Some c, Some ?d)) = Some x" by simp
    from Cons.IH[OF ok res]
    have ih: "(x \<in> set cs \<or> x = c)" "\<bar>t x - tg\<bar> \<le> w"
      "\<forall>c'\<in>set cs. \<bar>t x - tg\<bar> \<le> \<bar>t c' - tg\<bar>" "\<bar>t x - tg\<bar> \<le> ?d"
      by auto
    have "\<forall>a. n = Some a \<longrightarrow> \<bar>t x - tg\<bar> \<le> \<bar>t a - tg\<bar>"
      using True Cons.prems(1) ih(4) acc by (auto simp: accOk_def)
    with ih acc show ?thesis by auto
  next
    case False
    with Cons.prems(2) acc
    have res: "fst (scanCandidates tg w cs acc) = Some x" by (simp add: Let_def)
    from Cons.IH[OF Cons.prems(1) res]
    have ih: "(x \<in> set cs \<or> n = Some x)" "\<bar>t x - tg\<bar> \<le> w"
      "\<forall>c'\<in>set cs. \<bar>t x - tg\<bar> \<le> \<bar>t c' - tg\<bar>"
      "\<forall>a. n = Some a \<longrightarrow> \<bar>t x - tg\<bar> \<le> \<bar>t a - tg\<bar>"
      using acc by auto
    have "\<bar>t x - tg\<bar> \<le> ?d"
    proof (cases "?d \<le> w")
      case False
      with ih(2) show ?thesis by simp
    next
      case True
      with False obtain k where k: "m = Some k" "\<not> ?d < k" by (auto split: option.splits)
      with Cons.prems(1) acc obtain a where "n = Some a" "k = \<bar>t a - tg\<bar>"
        by (auto simp: accOk_def split: option.splits)
      with ih(4) k show ?thesis by simp
    qed
    with ih acc show ?thesis by auto
  qed
qed

lemma candidatesAt_subset: "left \<le> length hist \<Longrightarrow> set (candidatesAt hist left) \<subseteq> set hist"
  by (auto simp: candidatesAt_def)

lemma candidatesAt_cover:
  assumes srt: "sorted (map t hist)" and ip: "insertionPoint hist tg k" and y: "y \<in> set hist"
  shows "\<exists>c\<in>set (candidatesAt hist k). \<bar>t c - tg\<bar> \<le> \<bar>t y - tg\<bar>"
proof -
  have mono: "\<And>i j. i \<le> j \<Longrightarrow> j < length hist \<Longrightarrow> t (hist ! i) \<le> t (hist ! j)"
    using srt by (simp add: sorted_iff_nth_mono)
  from y obtain j where j: "j < length hist" "y = hist ! j" by (auto simp: in_set_conv_nth)
  show ?thesis
  proof (cases "k \<le> j")
    case True
    with j have kl: "k < length hist" by simp
    from ip kl have "tg \<le> t (hist ! k)" by (simp add: insertionPoint_def)
    moreover from mono[OF True j(1)] have "t (hist ! k) \<le> t y" using j by simp
    ultimately have "\<bar>t (hist ! k) - tg\<bar> \<le> \<bar>t y - tg\<bar>" by simp
    moreover from kl have "hist ! k \<in> set (candidatesAt hist k)" by (simp add: candidatesAt_def)
    ultimately show ?thesis by blast
  next
    case False
    then have jk: "j \<le> k - 1" "0 < k" by simp_all
    from ip jk have kl: "k - 1 < length hist" by (auto simp: insertionPoint_def)
    from ip jk have "t (hist ! (k - 1)) < tg" by (simp add: insertionPoint_def)
    moreover from mono[OF jk(1) kl] have "t y \<le> t (hist ! (k - 1))" using j by simp
    ultimately have "\<bar>t (hist ! (k - 1)) - tg\<bar> \<le> \<bar>t y - tg\<bar>" by simp
    moreover from jk have "hist ! (k - 1) \<in> set (candidatesAt hist k)" by (simp add: candidatesAt_def)
    ultimately show ?thesis by blast
  qed
qed

lemma findNearestPrice_Some:
  assumes "findNearestPrice hist tg w = Some v"
  shows "\<exists>x. fst (scanCandidates tg w (candidatesAt hist (bsearch hist tg 0 (length hist))) (None, None)) = Some x
           \<and> p x = v"
  using assms by (auto simp: findNearestPrice_def Let_def split: if_splits option.splits)

text \<open>
  C1. For a series sorted ascending by \<open>t\<close> and any tolerance \<open>w\<close>: when \<open>findNearestPrice\<close>
  returns a value, it is the price of a sample of the series whose timestamp is at most
  \<open>w\<close> away from the target, and no sample of the series is strictly nearer to the target.
\<close>

theorem findNearestPrice_within_tolerance_and_minimal:
  assumes srt: "sorted (map t hist)"
    and res: "findNearestPrice hist targetTimestamp w = Some v"
  shows "\<exists>x\<in>set hist. p x = v \<and> \<bar>t x - targetTimestamp\<bar> \<le> w \<and>
           (\<forall>y\<in>set hist. \<not> \<bar>t y - targetTimestamp\<bar> < \<bar>t x - targetTimestamp\<bar>)"
proof -
  let ?k = "bsearch hist targetTimestamp 0 (length hist)"
  from findNearestPrice_Some[OF res] obtain x where
    x: "fst (scanCandidates targetTimestamp w (candidatesAt hist ?k) (None, None)) = Some x" "p x = v"
    by blast
  have ip: "insertionPoint hist targetTimestamp ?k" by (rule bsearch_insertionPoint[OF srt])
  have "accOk targetTimestamp w (None, None)" by (simp add: accOk_def)
  from scanCandidates_min[OF this x(1)]
  have sc: "x \<in> set (candidatesAt hist ?k)" "\<bar>t x - targetTimestamp\<bar> \<le> w"
    "\<forall>c\<in>set (candidatesAt hist ?k). \<bar>t x - targetTimestamp\<bar> \<le> \<bar>t c - targetTimestamp\<bar>"
    by auto
  from ip have "?k \<le> length hist" by (simp add: insertionPoint_def)
  from candidatesAt_subset[OF this] sc(1) have xin: "x \<in> set hist" by blast
  have "\<forall>y\<in>set hist. \<not> \<bar>t y - targetTimestamp\<bar> < \<bar>t x - targetTimestamp\<bar>"
  proof
    fix y assume "y \<in> set hist"
    from candidatesAt_cover[OF srt ip this] obtain c where
      "c \<in> set (candidatesAt hist ?k)" "\<bar>t c - targetTimestamp\<bar> \<le> \<bar>t y - targetTimestamp\<bar>" by blast
    with sc(3) show "\<not> \<bar>t y - targetTimestamp\<bar> < \<bar>t x - targetTimestamp\<bar>" by fastforce
  qed
  with xin x(2) sc(2) show ?thesis by blast
qed

theorem findNearestPrice_within_tolerance_and_minimal_witness:
  "sorted (map t seriesAB) \<and> findNearestPrice seriesAB 26 270 = Some 0.4 \<and>
   (\<exists>x\<in>set seriesAB. p x = 0.4 \<and> \<bar>t x - 26\<bar> \<le> 270 \<and>
           (\<forall>y\<in>set seriesAB. \<not> \<bar>t y - 26\<bar> < \<bar>t x - 26\<bar>))"
proof -
  have s: "sorted (map t seriesAB)" by (simp add: seriesAB_def)
  have r: "findNearestPrice seriesAB 26 270 = Some 0.4"
    by (simp add: seriesAB_def findNearestPrice_def candidatesAt_def bsearch.simps)
  from findNearestPrice_within_tolerance_and_minimal[OF s r] s r show ?thesis by blast
qed


section \<open>Ties go to the later sample\<close>

lemma insertionPoint_less:
  assumes "insertionPoint hist tg a" "insertionPoint hist tg b" "a < b"
  shows False
proof -
  from assms have "a < length hist" by (simp add: insertionPoint_def)
  with assms have "tg \<le> t (hist ! a)" "t (hist ! a) < tg" by (auto simp: insertionPoint_def)
  then show False by simp
qed

lemma insertionPoint_unique:
  assumes "insertionPoint hist tg k" "insertionPoint hist tg k'"
  shows "k = k'"
  using insertionPoint_less[OF assms] insertionPoint_less[OF assms(2,1)]
  by (meson nat_neq_iff)

lemma scanCandidates_tie:
  "\<bar>t a - tg\<bar> = \<bar>t b - tg\<bar> \<Longrightarrow> \<bar>t a - tg\<bar> \<le> w \<Longrightarrow>
   fst (scanCandidates tg w [a, b] (None, None)) = Some a"
  by simp

text \<open>
  C10. In a sorted series, when the sample at the insertion point of the target and the
  sample just before it are equally far from the target and within the tolerance,
  \<open>findNearestPrice\<close> returns the price of the sample at the insertion point, the later
  of the two: its timestamp is not below the target, the other one's is.
\<close>

theorem findNearestPrice_tie_returns_later_sample:
  assumes srt: "sorted (map t hist)"
    and ip: "insertionPoint hist targetTimestamp k"
    and k: "0 < k" "k < length hist"
    and tie: "\<bar>t (hist ! k) - targetTimestamp\<bar> = \<bar>t (hist ! (k - 1)) - targetTimestamp\<bar>"
    and tol: "\<bar>t (hist ! k) - targetTimestamp\<bar> \<le> w"
  shows "findNearestPrice hist targetTimestamp w = Some (p (hist ! k)) \<and>
         targetTimestamp \<le> t (hist ! k) \<and> t (hist ! (k - 1)) < targetTimestamp"
proof -
  have "bsearch hist targetTimestamp 0 (length hist) = k"
    using insertionPoint_unique[OF bsearch_insertionPoint[OF srt] ip] .
  moreover from k have "candidatesAt hist k = [hist ! k, hist ! (k - 1)]"
    by (simp add: candidatesAt_def)
  moreover from k have "length hist \<noteq> 0" by auto
  moreover note scanCandidates_tie[OF tie tol]
  ultimately have "findNearestPrice hist targetTimestamp w = Some (p (hist ! k))"
    unfolding findNearestPrice_def Let_def by simp
  moreover from ip k have "targetTimestamp \<le> t (hist ! k)" "t (hist ! (k - 1)) < targetTimestamp"
    by (auto simp: insertionPoint_def)
  ultimately show ?thesis by simp
qed

theorem findNearestPrice_tie_returns_later_sample_witness:
  "sorted (map t seriesAB) \<and> insertionPoint seriesAB 15 1 \<and>
   \<bar>t (seriesAB ! 1) - 15\<bar> = \<bar>t (seriesAB ! (1 - 1)) - 15\<bar> \<and> \<bar>t (seriesAB ! 1) - 15\<bar> \<le> 270 \<and>
   findNearestPrice seriesAB 15 270 = Some 0.4 \<and> t (seriesAB ! 1) = 20"
proof -
  have s: "sorted (map t seriesAB)" by (simp add: seriesAB_def)
  have ip: "insertionPoint seriesAB 15 1"
    by (auto simp: seriesAB_def insertionPoint_def nth_Cons split: nat.splits)
  have k: "0 < (1::nat)" "1 < length seriesAB" by (simp_all add: seriesAB_def)
  have tie: "\<bar>t (seriesAB ! 1) - 15\<bar> = \<bar>t (seriesAB ! (1 - 1)) - 15\<bar>" by (simp add: seriesAB_def)
  have tol: "\<bar>t (seriesAB ! 1) - 15\<bar> \<le> 270" by (simp add: seriesAB_def)
  from findNearestPrice_tie_returns_later_sample[OF s ip k tie tol] s ip tie tol
  show ?thesis by (simp add: seriesAB_def)
qed

section \<open>The rows of the two-series example\<close>

text \<open>
  C8, as the code has it. With \<open>A = {10: 0.3, 20: 0.4}\<close> and \<open>B = {10: 0.6}\<close> selected, the row
  at timestamp 20 does carry a sum: the sample of \<open>B\<close> at 10 is 10 seconds from 20, within
  the tolerance of 270 seconds, so \<open>B\<close> yields 0.6 there. (The additions \<open>0 + 0.4\<close> and
  \<open>0.4 + 0.6\<close> give 0.4 and 1 in doubles as in exact arithmetic, which stands for
  \<open>jsPlus\<close> here.)
\<close>

theorem chartData_AB_row20_has_sum:
  "(chartData (+) NONE stateAB ! 1) ''timestamp'' = Some 20 \<and>
   (chartData (+) NONE stateAB ! 1) ''B-YES'' = Some 0.6 \<and>
   (chartData (+) NONE stateAB ! 1) ''sum'' = Some 1"
  by (simp add: chartData_def chartTimestamps_def fillDataPoint_def addBetPrice_def Map_keys_def
      Map_get_def stateAB_def initialState_def addTimestamps_def findNearestPrice_def
      candidatesAt_def bsearch.simps)

text \<open>
  C8, amended. With \<open>A = {10: 0.3, 20: 0.4}\<close> and \<open>B = {10: 0.6}\<close> selected and the primary
  tolerance of 270 seconds, there are two rows, and both carry a sum. The row at
  timestamp 10 has \<open>A = 0.3\<close>, \<open>B = 0.6\<close> and as \<open>sum\<close> what the code's additions
  \<open>(0 + 0.3) + 0.6\<close> give; the row at timestamp 20 has \<open>A = 0.4\<close>, \<open>B = 0.6\<close> (the nearest
  sample of \<open>B\<close>, 10 seconds away) and as \<open>sum\<close> what \<open>(0 + 0.4) + 0.6\<close> give. This holds
  for every addition \<open>jsPlus\<close>, so for the rounding addition of doubles: no value of the
  sums is asserted beyond the operands and the order in which they are added.
\<close>

theorem chartData_AB_rows:
  "length (chartData jsPlus NONE stateAB) = 2 \<and>
   (chartData jsPlus NONE stateAB ! 0) ''timestamp'' = Some 10 \<and>
   (chartData jsPlus NONE stateAB ! 0) ''A-YES'' = Some 0.3 \<and>
   (chartData jsPlus NONE stateAB ! 0) ''B-YES'' = Some 0.6 \<and>
   (chartData jsPlus NONE stateAB ! 0) ''sum'' = Some (jsPlus (jsPlus 0 0.3) 0.6) \<and>
   (chartData jsPlus NONE stateAB ! 1) ''timestamp'' = Some 20 \<and>
   (chartData jsPlus NONE stateAB ! 1) ''A-YES'' = Some 0.4 \<and>
   (chartData jsPlus NONE stateAB ! 1) ''B-YES'' = Some 0.6 \<and>
   (chartData jsPlus NONE stateAB ! 1) ''sum'' = Some (jsPlus (jsPlus 0 0.4) 0.6)"
  by (simp add: chartData_def chartTimestamps_def fillDataPoint_def addBetPrice_def Map_keys_def
      Map_get_def stateAB_def initialState_def addTimestamps_def findNearestPrice_def
      candidatesAt_def bsearch.simps)

section \<open>The sum of a row\<close>

lemma generateBetKey_has_dash: "CHR ''-'' \<in> set (generateBetKey m ty)"
  by (simp add: generateBetKey_def)

lemma generateBetKey_not_sum: "generateBetKey m ty \<noteq> ''sum''"
  using generateBetKey_has_dash[of m ty] by auto

lemma generateBetKey_not_timestamp: "generateBetKey m ty \<noteq> ''timestamp''"
  using generateBetKey_has_dash[of m ty] by auto

lemma cryptoString_not_sum: "cryptoString c \<noteq> ''sum''"
  by (cases c) simp_all

lemma cryptoString_not_timestamp: "cryptoString c \<noteq> ''timestamp''"
  by (cases c) simp_all

lemma addBetPrice_eq:
  "addBetPrice jsPlus s ts k (dp, sm, v) =
     (case seriesValueAt s ts k of
        None \<Rightarrow> (dp, sm, v)
      | Some price \<Rightarrow> (dp(k \<mapsto> price), jsPlus sm price, v + 1))"
  by (simp add: addBetPrice_def seriesValueAt_def split: option.splits)

text \<open>
  The loop over the keys: the count is the number of keys that yield a value, the sum is
  the values added to the start value one after the other, in the order of the keys, and
  only entries of the keys are written.
\<close>

lemma fold_addBetPrice:
  "fold (addBetPrice jsPlus s ts) ks (dp, sm, v) = (dp', sm', v') \<Longrightarrow>
     v' = v + length (filter (\<lambda>k. seriesValueAt s ts k \<noteq> None) ks) \<and>
     sm' = foldl jsPlus sm (List.map_filter (seriesValueAt s ts) ks) \<and>
     (\<forall>key. key \<notin> set ks \<longrightarrow> dp' key = dp key)"
proof (induction ks arbitrary: dp sm v)
  case Nil
  then show ?case by (simp add: List.map_filter_simps)
next
  case (Cons k ks)
  show ?case
  proof (cases "seriesValueAt s ts k")
    case None
    with Cons.prems have "fold (addBetPrice jsPlus s ts) ks (dp, sm, v) = (dp', sm', v')"
      by (simp add: addBetPrice_eq)
    from Cons.IH[OF this] None show ?thesis by (simp add: List.map_filter_simps)
  next
    case (Some price)
    with Cons.prems
    have "fold (addBetPrice jsPlus s ts) ks (dp(k \<mapsto> price), jsPlus sm price, v + 1) = (dp', sm', v')"
      by (simp add: addBetPrice_eq)
    from Cons.IH[OF this] Some show ?thesis by (auto simp: List.map_filter_simps)
  qed
qed

lemma length_filter_eq_iff: "length (filter P xs) = length xs \<longleftrightarrow> (\<forall>x\<in>set xs. P x)"
proof
  assume eq: "length (filter P xs) = length xs"
  show "\<forall>x\<in>set xs. P x"
  proof (rule ccontr)
    assume "\<not> (\<forall>x\<in>set xs. P x)"
    then obtain x where "x \<in> set xs" "\<not> P x" by blast
    with length_filter_less[of x xs P] eq show False by simp
  qed
next
  assume "\<forall>x\<in>set xs. P x"
  then have "filter P xs = xs" by (simp add: filter_id_conv)
  then show "length (filter P xs) = length xs" by simp
qed

lemma map_filter_all_present:
  "\<forall>k\<in>set ks. f k \<noteq> None \<Longrightarrow> List.map_filter f ks = map (\<lambda>k. the (f k)) ks"
  by (induction ks) (auto simp: List.map_filter_simps)

lemma fillDataPoint_sum:
  assumes keys: "\<forall>k\<in>set (Map_keys (selectedBets s)). \<exists>m ty. k = generateBetKey m ty"
  shows "fillDataPoint jsPlus c s ts ''sum'' =
          (if 2 \<le> length (Map_keys (selectedBets s)) \<and>
              (\<forall>k\<in>set (Map_keys (selectedBets s)). seriesValueAt s ts k \<noteq> None)
           then Some (foldl jsPlus 0 (map (\<lambda>k. the (seriesValueAt s ts k)) (Map_keys (selectedBets s))))
           else None)"
    and "fillDataPoint jsPlus c s ts ''timestamp'' = Some (of_int ts)"
proof -
  let ?ks = "Map_keys (selectedBets s)"
  obtain dp' sm' v' where
    f: "fold (addBetPrice jsPlus s ts) ?ks ([''timestamp'' \<mapsto> of_int ts], 0, 0) = (dp', sm', v')"
    by (cases "fold (addBetPrice jsPlus s ts) ?ks ([''timestamp'' \<mapsto> of_int ts], 0, 0)") auto
  from fold_addBetPrice[OF f]
  have v: "v' = length (filter (\<lambda>k. seriesValueAt s ts k \<noteq> None) ?ks)"
    and sm: "sm' = foldl jsPlus 0 (List.map_filter (seriesValueAt s ts) ?ks)"
    and dp: "\<And>key. key \<notin> set ?ks \<Longrightarrow> dp' key = [''timestamp'' \<mapsto> of_int ts] key"
    by auto
  from keys have nk: "''sum'' \<notin> set ?ks" "''timestamp'' \<notin> set ?ks"
    using generateBetKey_not_sum generateBetKey_not_timestamp by metis+
  have dps: "dp' ''sum'' = None" "dp' ''timestamp'' = Some (of_int ts)"
    using dp[OF nk(1)] dp[OF nk(2)] by simp_all
  have all: "v' = length ?ks \<longleftrightarrow> (\<forall>k\<in>set ?ks. seriesValueAt s ts k \<noteq> None)"
    unfolding v by (rule length_filter_eq_iff)
  let ?dp2 = "if length ?ks > 1 \<and> v' = length ?ks then dp'(''sum'' \<mapsto> sm') else dp'"
  have fd: "fillDataPoint jsPlus c s ts =
    (if c \<noteq> NONE \<and> length (cryptoPrices s) > 0
     then (case findNearestPrice (cryptoPrices s) ts 120 of None \<Rightarrow> ?dp2
           | Some cp \<Rightarrow> ?dp2(cryptoString c \<mapsto> cp))
     else ?dp2)"
    unfolding fillDataPoint_def Let_def f prod.case by (rule refl)
  have "fillDataPoint jsPlus c s ts ''sum'' = ?dp2 ''sum''"
    unfolding fd using cryptoString_not_sum[of c] by (auto split: option.splits)
  also have "\<dots> = (if 2 \<le> length ?ks \<and> (\<forall>k\<in>set ?ks. seriesValueAt s ts k \<noteq> None)
           then Some (foldl jsPlus 0 (map (\<lambda>k. the (seriesValueAt s ts k)) ?ks)) else None)"
    using all dps(1) sm map_filter_all_present[of ?ks "seriesValueAt s ts"] by auto
  finally show "fillDataPoint jsPlus c s ts ''sum'' =
          (if 2 \<le> length ?ks \<and> (\<forall>k\<in>set ?ks. seriesValueAt s ts k \<noteq> None)
           then Some (foldl jsPlus 0 (map (\<lambda>k. the (seriesValueAt s ts k)) ?ks)) else None)" .
  show "fillDataPoint jsPlus c s ts ''timestamp'' = Some (of_int ts)"
    unfolding fd using cryptoString_not_timestamp[of c] dps(2) by (auto split: option.splits)
qed

text \<open>
  C3. In every row built by \<open>chartData\<close> (the keys of the selection being keys made by
  \<open>generateBetKey\<close>), the entry \<open>sum\<close> is present exactly when at least two series are
  selected and every selected series yields a nearest value at the row's timestamp; it
  is then the sum of those values, added from 0 in the order of the keys by the code's
  addition, whatever that addition rounds to. So no sum over a strict subset of the
  selected series is recorded.
\<close>

theorem chartData_sum_iff_all_selected_present:
  assumes keys: "\<forall>k\<in>set (Map_keys (selectedBets s)). \<exists>m ty. k = generateBetKey m ty"
    and i: "i < length (chartData jsPlus cryptoProp s)"
  shows "(chartData jsPlus cryptoProp s ! i) ''timestamp''
           = Some (of_int (chartTimestamps cryptoProp s ! i)) \<and>
         (chartData jsPlus cryptoProp s ! i) ''sum'' =
           (if 2 \<le> length (Map_keys (selectedBets s)) \<and>
               (\<forall>k\<in>set (Map_keys (selectedBets s)).
                   seriesValueAt s (chartTimestamps cryptoProp s ! i) k \<noteq> None)
            then Some (foldl jsPlus 0
                         (map (\<lambda>k. the (seriesValueAt s (chartTimestamps cryptoProp s ! i) k))
                            (Map_keys (selectedBets s))))
            else None)"
  using fillDataPoint_sum[OF keys] i by (simp add: chartData_def)

theorem chartData_sum_iff_all_selected_present_witness:
  "Map_keys (selectedBets stateAB) = [generateBetKey ''A'' YES, generateBetKey ''B'' YES] \<and>
   1 < length (chartData (+) NONE stateAB) \<and>
   chartTimestamps NONE stateAB = [10, 20] \<and>
   seriesValueAt stateAB 20 ''A-YES'' = Some 0.4 \<and>
   seriesValueAt stateAB 20 ''B-YES'' = Some 0.6 \<and>
   (chartData (+) NONE stateAB ! 1) ''sum'' = Some 1"
proof -
  have g: "generateBetKey ''A'' YES = ''A-YES''" "generateBetKey ''B'' YES = ''B-YES''"
    by (simp_all add: generateBetKey_def)
  have "\<exists>m ty. ''A-YES'' = generateBetKey m ty" "\<exists>m ty. ''B-YES'' = generateBetKey m ty"
    using g(1)[symmetric] g(2)[symmetric] by blast+
  then have k: "\<forall>k\<in>set (Map_keys (selectedBets stateAB)). \<exists>m ty. k = generateBetKey m ty"
    by (simp add: stateAB_def initialState_def Map_keys_def)
  have ts: "chartTimestamps NONE stateAB = [10, 20]"
    by (simp add: chartTimestamps_def stateAB_def initialState_def Map_keys_def Map_get_def addTimestamps_def)
  then have i: "1 < length (chartData (+) NONE stateAB)" by (simp add: chartData_def)
  have v: "seriesValueAt stateAB 20 ''A-YES'' = Some 0.4" "seriesValueAt stateAB 20 ''B-YES'' = Some 0.6"
    by (simp_all add: seriesValueAt_def stateAB_def initialState_def Map_get_def findNearestPrice_def
        candidatesAt_def bsearch.simps)
  have ks: "Map_keys (selectedBets stateAB) = [''A-YES'', ''B-YES'']"
    by (simp add: stateAB_def initialState_def Map_keys_def)
  have c: "2 \<le> length (Map_keys (selectedBets stateAB)) \<and>
           (\<forall>k\<in>set (Map_keys (selectedBets stateAB)).
               seriesValueAt stateAB (chartTimestamps NONE stateAB ! 1) k \<noteq> None)"
    by (simp add: ts ks v del: not_None_eq)
  have sm: "foldl (+) 0 (map (\<lambda>k. the (seriesValueAt stateAB (chartTimestamps NONE stateAB ! 1) k))
                        (Map_keys (selectedBets stateAB))) = 1"
    by (simp add: ts ks v)
  from chartData_sum_iff_all_selected_present[where jsPlus = "(+)", OF k i]
  have "(chartData (+) NONE stateAB ! 1) ''sum'' = Some 1"
    unfolding if_P[OF c] sm by simp
  with ks g i ts v show ?thesis by simp
qed

text \<open>
  Were the addition exact, the sum of a row would be the sum of the values in the
  ordinary sense.
\<close>

lemma foldl_plus_sum_list: "foldl (+) a xs = a + sum_list (xs :: real list)"
  by (induction xs arbitrary: a) simp_all

lemma fillDataPoint_sum_exact:
  assumes keys: "\<forall>k\<in>set (Map_keys (selectedBets s)). \<exists>m ty. k = generateBetKey m ty"
  shows "fillDataPoint (+) c s ts ''sum'' =
          (if 2 \<le> length (Map_keys (selectedBets s)) \<and>
              (\<forall>k\<in>set (Map_keys (selectedBets s)). seriesValueAt s ts k \<noteq> None)
           then Some (sum_list (map (\<lambda>k. the (seriesValueAt s ts k)) (Map_keys (selectedBets s))))
           else None)"
  using fillDataPoint_sum(1)[OF keys, of "(+)" c ts] by (simp add: foldl_plus_sum_list)

section \<open>Extending the coverage\<close>

lemma promiseAll_Rejected: "Rejected \<in> set ps \<Longrightarrow> promiseAll ps = Rejected"
  by (induction ps) (auto split: Promise.splits)

lemma dedupedPrices_strict:
  assumes "sorted (map t arr)"
  shows "sorted_wrt (<) (map t (dedupedPrices arr))"
proof -
  let ?keep = "\<lambda>index. index = 0 \<or> t (arr ! index) \<noteq> t (arr ! (index - 1))"
  let ?js = "filter ?keep [0..<length arr]"
  have mono: "\<And>i j. i \<le> j \<Longrightarrow> j < length arr \<Longrightarrow> t (arr ! i) \<le> t (arr ! j)"
    using assms by (simp add: sorted_iff_nth_mono)
  have "sorted_wrt (<) ?js" by (rule sorted_wrt_filter) simp
  then have "sorted_wrt (\<lambda>i j. t (arr ! i) < t (arr ! j)) ?js"
  proof (rule sorted_wrt_mono_rel[rotated])
    fix i j assume "i \<in> set ?js" "j \<in> set ?js" "i < j"
    then have j: "j < length arr" "t (arr ! j) \<noteq> t (arr ! (j - 1))" "i \<le> j - 1" by auto
    then have "t (arr ! i) \<le> t (arr ! (j - 1))" "t (arr ! (j - 1)) \<le> t (arr ! j)"
      using mono[of i "j - 1"] mono[of "j - 1" j] by simp_all
    with j show "t (arr ! i) < t (arr ! j)" by simp
  qed
  then show ?thesis by (simp add: dedupedPrices_def sorted_wrt_map comp_def)
qed

lemma dedupedPrices_keeps_timestamp:
  "i < length arr \<Longrightarrow> t (arr ! i) \<in> set (map t (dedupedPrices arr))"
proof (induction i)
  case 0
  then have "arr ! 0 \<in> set (dedupedPrices arr)" by (force simp: dedupedPrices_def)
  then show ?case by simp
next
  case (Suc i)
  show ?case
  proof (cases "t (arr ! Suc i) = t (arr ! i)")
    case True
    with Suc show ?thesis by simp
  next
    case False
    with Suc.prems have "arr ! Suc i \<in> set (dedupedPrices arr)" by (force simp: dedupedPrices_def)
    then show ?thesis by simp
  qed
qed

lemma dedupedPrices_subset: "set (dedupedPrices arr) \<subseteq> set arr"
  by (auto simp: dedupedPrices_def)

lemma dedupedPrices_timestamps: "set (map t (dedupedPrices arr)) = set (map t arr)"
proof
  show "set (map t (dedupedPrices arr)) \<subseteq> set (map t arr)"
    using dedupedPrices_subset[of arr] by auto
  show "set (map t arr) \<subseteq> set (map t (dedupedPrices arr))"
  proof
    fix x assume "x \<in> set (map t arr)"
    then obtain i where "i < length arr" "x = t (arr ! i)" by (auto simp: in_set_conv_nth)
    with dedupedPrices_keeps_timestamp[of i arr] show "x \<in> set (map t (dedupedPrices arr))" by simp
  qed
qed

lemma merged_series:
  "sorted_wrt (<) (map t (dedupedPrices (sort_key t xs))) \<and>
   set (map t (dedupedPrices (sort_key t xs))) = set (map t xs)"
  using dedupedPrices_strict[of "sort_key t xs"] dedupedPrices_timestamps[of "sort_key t xs"]
  by simp

lemma fetchCrypto_calls:
  "snd (fetchCrypto f c tr s) =
     (case cryptoCacheRef s of
        None \<Rightarrow> [(c, min' tr, max' tr)]
      | Some cache \<Rightarrow>
          if crypto cache \<noteq> c \<or> cryptoPrices s = [] then [(c, min' tr, max' tr)]
          else if min' cache \<le> min' tr \<and> max' tr \<le> max' cache then []
          else map (\<lambda>r. (c, min' r, max' r)) (fetchRanges tr cache))"
  by (auto simp: fetchCrypto_def fetchEntireRange_def Let_def split: option.splits Promise.splits)

lemma fetchRanges_nonempty:
  "\<not> (min' cache \<le> min' tr \<and> max' tr \<le> max' cache) \<Longrightarrow> fetchRanges tr cache \<noteq> []"
  by (auto simp: fetchRanges_def)

lemma fetchCrypto_delta_Fulfilled:
  assumes "cryptoCacheRef s = Some cache" "crypto cache = c" "cryptoPrices s \<noteq> []"
    and "\<not> (min' cache \<le> min' tr \<and> max' tr \<le> max' cache)"
    and "promiseAll (map (\<lambda>r. f c (min' r) (max' r)) (fetchRanges tr cache)) = Fulfilled new"
  shows "fst (fetchCrypto f c tr s) =
           s\<lparr>cryptoPrices := dedupedPrices (sort_key t (cryptoPrices s @ concat new)),
             cryptoCacheRef := Some \<lparr>min' = min (min' tr) (min' cache),
                                     max' = max (max' tr) (max' cache), crypto = c\<rparr>,
             loadingCrypto := False\<rparr>"
  using assms fetchRanges_nonempty[OF assms(4)]
  by (auto simp: fetchCrypto_def Let_def)

text \<open>
  C2, amended. With coverage \<open>[100, 200]\<close> for the current kind and a stored series that is
  not empty, a request for \<open>[50, 250]\<close> issues exactly two fetches, for \<open>[50, 100]\<close> and for
  \<open>[200, 250]\<close>; when both succeed the covered interval is \<open>[50, 250]\<close> and the stored
  series is sorted ascending by \<open>t\<close> without duplicate timestamps (it has the timestamps
  of the old series and of the two results).
\<close>

theorem fetchCrypto_two_deltas:
  assumes cache: "cryptoCacheRef s = Some \<lparr>min' = 100, max' = 200, crypto = c\<rparr>"
    and ne: "cryptoPrices s \<noteq> []"
    and f1: "fetchHistory c 50 100 = Fulfilled before"
    and f2: "fetchHistory c 200 250 = Fulfilled after"
  shows "snd (fetchCrypto fetchHistory c \<lparr>min' = 50, max' = 250\<rparr> s) = [(c, 50, 100), (c, 200, 250)] \<and>
         cryptoCacheRef (fst (fetchCrypto fetchHistory c \<lparr>min' = 50, max' = 250\<rparr> s)) =
           Some \<lparr>min' = 50, max' = 250, crypto = c\<rparr> \<and>
         sorted (map t (cryptoPrices (fst (fetchCrypto fetchHistory c \<lparr>min' = 50, max' = 250\<rparr> s)))) \<and>
         distinct (map t (cryptoPrices (fst (fetchCrypto fetchHistory c \<lparr>min' = 50, max' = 250\<rparr> s)))) \<and>
         set (map t (cryptoPrices (fst (fetchCrypto fetchHistory c \<lparr>min' = 50, max' = 250\<rparr> s)))) =
           set (map t (cryptoPrices s @ before @ after))"
proof -
  let ?tr = "\<lparr>min' = 50, max' = 250\<rparr>"
  let ?cache = "\<lparr>min' = 100, max' = 200, crypto = c\<rparr>"
  have r: "fetchRanges ?tr ?cache = [\<lparr>min' = 50, max' = 100\<rparr>, \<lparr>min' = 200, max' = 250\<rparr>]"
    by (simp add: fetchRanges_def)
  have calls: "snd (fetchCrypto fetchHistory c ?tr s) = [(c, 50, 100), (c, 200, 250)]"
    using cache ne by (simp add: fetchCrypto_calls r)
  have pa: "promiseAll (map (\<lambda>r. fetchHistory c (min' r) (max' r)) (fetchRanges ?tr ?cache))
              = Fulfilled [before, after]"
    by (simp add: r f1 f2)
  have st: "fst (fetchCrypto fetchHistory c ?tr s) =
           s\<lparr>cryptoPrices := dedupedPrices (sort_key t (cryptoPrices s @ concat [before, after])),
             cryptoCacheRef := Some \<lparr>min' = min (min' ?tr) (min' ?cache),
                                     max' = max (max' ?tr) (max' ?cache), crypto = c\<rparr>,
             loadingCrypto := False\<rparr>"
    using fetchCrypto_delta_Fulfilled[of s ?cache c ?tr fetchHistory "[before, after]"] cache ne pa
    by simp
  from merged_series[of "cryptoPrices s @ before @ after"]
  show ?thesis unfolding calls st by (simp add: strict_sorted_iff)
qed


theorem fetchCrypto_two_deltas_witness:
  "cryptoCacheRef stateCovered = Some \<lparr>min' = 100, max' = 200, crypto = BTC\<rparr> \<and>
   cryptoPrices stateCovered \<noteq> [] \<and>
   snd (fetchCrypto fetchDeltas BTC \<lparr>min' = 50, max' = 250\<rparr> stateCovered) = [(BTC, 50, 100), (BTC, 200, 250)] \<and>
   map t (cryptoPrices (fst (fetchCrypto fetchDeltas BTC \<lparr>min' = 50, max' = 250\<rparr> stateCovered)))
     = [50, 100, 200, 250]"
proof -
  have c: "cryptoCacheRef stateCovered = Some \<lparr>min' = 100, max' = 200, crypto = BTC\<rparr>"
    by (simp add: stateCovered_def initialState_def)
  have n: "cryptoPrices stateCovered \<noteq> []" by (simp add: stateCovered_def initialState_def)
  have f1: "fetchDeltas BTC 50 100 = Fulfilled [\<lparr>t = 50, p = 29900\<rparr>, \<lparr>t = 100, p = 30000\<rparr>]"
    and f2: "fetchDeltas BTC 200 250 = Fulfilled [\<lparr>t = 200, p = 30100\<rparr>, \<lparr>t = 250, p = 30200\<rparr>]"
    by (simp_all add: fetchDeltas_def)
  have m: "map t (cryptoPrices (fst (fetchCrypto fetchDeltas BTC \<lparr>min' = 50, max' = 250\<rparr> stateCovered)))
     = [50, 100, 200, 250]"
    by (simp add: fetchCrypto_def fetchRanges_def fetchDeltas_def stateCovered_def initialState_def
        dedupedPrices_def nth_Cons')
  from fetchCrypto_two_deltas[where fetchHistory = fetchDeltas, OF c n f1 f2] c n m show ?thesis by simp
qed

text \<open>
  C2, as the code has it. After a first fetch for \<open>[100, 200]\<close> that succeeded with no
  samples, the cache covers \<open>[100, 200]\<close> but the stored series is empty, and a request for
  \<open>[50, 250]\<close> issues one fetch of the entire range instead of two deltas.
\<close>

theorem fetchCrypto_empty_series_refetches_whole_range:
  "cryptoCacheRef stateEmptyCoverage = Some \<lparr>min' = 100, max' = 200, crypto = BTC\<rparr> \<and>
   snd (fetchCrypto fetchDeltas BTC \<lparr>min' = 50, max' = 250\<rparr> stateEmptyCoverage) = [(BTC, 50, 250)]"
  by (simp add: stateEmptyCoverage_def fetchCrypto_def fetchEntireRange_def fetchNothing_def
      fetchDeltas_def initialState_def)

lemma fetchCrypto_Rejected:
  assumes "(c', a, b) \<in> set (snd (fetchCrypto f c tr s))" "f c' a b = Rejected"
  shows "fst (fetchCrypto f c tr s) = s\<lparr>error := Some (fetchFailedMessage c), loadingCrypto := False\<rparr>"
proof (cases "cryptoCacheRef s")
  case None
  with assms show ?thesis
    by (auto simp: fetchCrypto_def fetchEntireRange_def Let_def split: Promise.splits)
next
  case (Some cache)
  show ?thesis
  proof (cases "crypto cache \<noteq> c \<or> cryptoPrices s = []")
    case True
    with Some assms show ?thesis
      by (auto simp: fetchCrypto_def fetchEntireRange_def Let_def split: Promise.splits)
  next
    case False
    with Some assms have cov: "\<not> (min' cache \<le> min' tr \<and> max' tr \<le> max' cache)"
      and mem: "(c', a, b) \<in> set (map (\<lambda>r. (c, min' r, max' r)) (fetchRanges tr cache))"
      by (auto simp: fetchCrypto_calls split: if_splits)
    from mem assms(2) have "Rejected \<in> set (map (\<lambda>r. f c (min' r) (max' r)) (fetchRanges tr cache))"
      by force
    then have "promiseAll (map (\<lambda>r. f c (min' r) (max' r)) (fetchRanges tr cache)) = Rejected"
      by (rule promiseAll_Rejected)
    with Some False cov fetchRanges_nonempty[OF cov] show ?thesis
      by (auto simp: fetchCrypto_def Let_def)
  qed
qed

lemma fetchCrypto_calls_cong:
  "cryptoCacheRef s' = cryptoCacheRef s \<Longrightarrow> cryptoPrices s' = cryptoPrices s \<Longrightarrow>
   snd (fetchCrypto f' c tr s') = snd (fetchCrypto f c tr s)"
  by (simp add: fetchCrypto_calls split: option.splits)

text \<open>
  C4. When a fetch issued by \<open>fetchCrypto\<close> fails (a delta sub-range, or the entire range),
  the cache bounds and the stored series are as before, no fetched data is merged, the
  error message is set, and a retry with the same requested interval issues the same
  fetches, whatever the fetch function answers then.
\<close>

theorem fetchCrypto_failure_leaves_coverage_unchanged:
  assumes "(c', a, b) \<in> set (snd (fetchCrypto fetchHistory c timeRange s))"
    and "fetchHistory c' a b = Rejected"
  shows "cryptoCacheRef (fst (fetchCrypto fetchHistory c timeRange s)) = cryptoCacheRef s \<and>
         cryptoPrices (fst (fetchCrypto fetchHistory c timeRange s)) = cryptoPrices s \<and>
         error (fst (fetchCrypto fetchHistory c timeRange s)) = Some (fetchFailedMessage c) \<and>
         snd (fetchCrypto retryHistory c timeRange (fst (fetchCrypto fetchHistory c timeRange s)))
           = snd (fetchCrypto fetchHistory c timeRange s)"
  using fetchCrypto_Rejected[OF assms]
    fetchCrypto_calls_cong[of "fst (fetchCrypto fetchHistory c timeRange s)" s retryHistory c timeRange fetchHistory]
  by simp

theorem fetchCrypto_failure_leaves_coverage_unchanged_witness:
  "(BTC, 200, 250) \<in> set (snd (fetchCrypto fetchSecondFails BTC \<lparr>min' = 50, max' = 250\<rparr> stateCovered)) \<and>
   fetchSecondFails BTC 200 250 = Rejected \<and>
   snd (fetchCrypto fetchSecondFails BTC \<lparr>min' = 50, max' = 250\<rparr> stateCovered)
     = [(BTC, 50, 100), (BTC, 200, 250)] \<and>
   cryptoCacheRef (fst (fetchCrypto fetchSecondFails BTC \<lparr>min' = 50, max' = 250\<rparr> stateCovered))
     = Some \<lparr>min' = 100, max' = 200, crypto = BTC\<rparr> \<and>
   cryptoPrices (fst (fetchCrypto fetchSecondFails BTC \<lparr>min' = 50, max' = 250\<rparr> stateCovered))
     = [\<lparr>t = 100, p = 30000\<rparr>, \<lparr>t = 200, p = 30100\<rparr>] \<and>
   snd (fetchCrypto fetchDeltas BTC \<lparr>min' = 50, max' = 250\<rparr>
          (fst (fetchCrypto fetchSecondFails BTC \<lparr>min' = 50, max' = 250\<rparr> stateCovered)))
     = [(BTC, 50, 100), (BTC, 200, 250)]"
proof -
  have calls: "snd (fetchCrypto fetchSecondFails BTC \<lparr>min' = 50, max' = 250\<rparr> stateCovered)
     = [(BTC, 50, 100), (BTC, 200, 250)]"
    by (simp add: fetchCrypto_calls fetchRanges_def stateCovered_def initialState_def)
  then have m: "(BTC, 200, 250) \<in> set (snd (fetchCrypto fetchSecondFails BTC \<lparr>min' = 50, max' = 250\<rparr> stateCovered))"
    by simp
  have r: "fetchSecondFails BTC 200 250 = Rejected" by (simp add: fetchSecondFails_def)
  from fetchCrypto_failure_leaves_coverage_unchanged[where fetchHistory = fetchSecondFails
      and retryHistory = fetchDeltas, OF m r] m r calls
  show ?thesis by (simp add: stateCovered_def initialState_def)
qed


lemma promiseAll_all_Fulfilled:
  "\<forall>x\<in>set ps. \<exists>v. x = Fulfilled v \<Longrightarrow> \<exists>vs. promiseAll ps = Fulfilled vs"
  by (induction ps) auto

lemma fetchCrypto_success_covers:
  assumes ok: "\<forall>(c', a, b)\<in>set (snd (fetchCrypto f c tr s)). \<exists>ps. f c' a b = Fulfilled ps"
    and ne: "cryptoPrices (fst (fetchCrypto f c tr s)) \<noteq> []"
  shows "\<exists>cache. cryptoCacheRef (fst (fetchCrypto f c tr s)) = Some cache \<and> crypto cache = c \<and>
           min' cache \<le> min' tr \<and> max' tr \<le> max' cache"
proof (cases "cryptoCacheRef s")
  case None
  with ok show ?thesis
    by (auto simp: fetchCrypto_def fetchEntireRange_def Let_def split: Promise.splits)
next
  case (Some cache)
  show ?thesis
  proof (cases "crypto cache \<noteq> c \<or> cryptoPrices s = []")
    case True
    with Some ok show ?thesis
      by (auto simp: fetchCrypto_def fetchEntireRange_def Let_def split: Promise.splits)
  next
    case full: False
    show ?thesis
    proof (cases "min' cache \<le> min' tr \<and> max' tr \<le> max' cache")
      case True
      with Some full show ?thesis by (simp add: fetchCrypto_def)
    next
      case False
      from ok Some full False
      have "\<forall>x\<in>set (map (\<lambda>r. f c (min' r) (max' r)) (fetchRanges tr cache)). \<exists>v. x = Fulfilled v"
        by (auto simp: fetchCrypto_calls)
      from promiseAll_all_Fulfilled[OF this] obtain new where
        "promiseAll (map (\<lambda>r. f c (min' r) (max' r)) (fetchRanges tr cache)) = Fulfilled new" ..
      from fetchCrypto_delta_Fulfilled[where f = f and c = c, OF Some _ _ False this] full
      show ?thesis by simp
    qed
  qed
qed

lemma fetchCrypto_cache_hit:
  assumes "cryptoCacheRef s = Some cache" "crypto cache = c" "cryptoPrices s \<noteq> []"
    and "min' cache \<le> min' tr" "max' tr \<le> max' cache"
  shows "fetchCrypto f c tr s = (s, [])"
  using assms by (simp add: fetchCrypto_def)

text \<open>
  C5, amended. After \<open>fetchCrypto\<close> succeeded for an interval (every fetch it issued was
  fulfilled) and left a stored series that is not empty, the cache is of the requested
  kind and covers the requested interval; and calling \<open>fetchCrypto\<close> again for the same
  kind and the same interval, or any interval inside the covered one, issues no fetch and
  returns the state unchanged.
\<close>

theorem fetchCrypto_covered_request_is_cache_hit:
  assumes ok: "\<forall>(c', a, b)\<in>set (snd (fetchCrypto fetchHistory c timeRange s)).
                  \<exists>prices. fetchHistory c' a b = Fulfilled prices"
    and ne: "cryptoPrices (fst (fetchCrypto fetchHistory c timeRange s)) \<noteq> []"
  shows "(\<exists>cache. cryptoCacheRef (fst (fetchCrypto fetchHistory c timeRange s)) = Some cache \<and>
            crypto cache = c \<and> min' cache \<le> min' timeRange \<and> max' timeRange \<le> max' cache) \<and>
         fetchCrypto fetchAgain c timeRange (fst (fetchCrypto fetchHistory c timeRange s))
           = (fst (fetchCrypto fetchHistory c timeRange s), []) \<and>
         (\<forall>cache again.
            cryptoCacheRef (fst (fetchCrypto fetchHistory c timeRange s)) = Some cache \<and>
            min' cache \<le> min' again \<and> max' again \<le> max' cache
            \<longrightarrow> fetchCrypto fetchAgain c again (fst (fetchCrypto fetchHistory c timeRange s))
                  = (fst (fetchCrypto fetchHistory c timeRange s), []))"
proof -
  let ?s1 = "fst (fetchCrypto fetchHistory c timeRange s)"
  from fetchCrypto_success_covers[OF ok ne] obtain cache where
    c: "cryptoCacheRef ?s1 = Some cache" "crypto cache = c"
      "min' cache \<le> min' timeRange" "max' timeRange \<le> max' cache" by blast
  have hit: "fetchCrypto fetchAgain c again ?s1 = (?s1, [])"
    if "min' cache \<le> min' again" "max' again \<le> max' cache" for again
    using fetchCrypto_cache_hit[OF c(1,2) ne that] .
  from c hit[of timeRange] have "fetchCrypto fetchAgain c timeRange ?s1 = (?s1, [])" by simp
  moreover from c hit have "\<forall>cache' again.
            cryptoCacheRef ?s1 = Some cache' \<and> min' cache' \<le> min' again \<and> max' again \<le> max' cache'
            \<longrightarrow> fetchCrypto fetchAgain c again ?s1 = (?s1, [])" by simp
  ultimately show ?thesis using c by blast
qed

theorem fetchCrypto_covered_request_is_cache_hit_witness:
  "fetchDeltas BTC 50 100 = Fulfilled [\<lparr>t = 50, p = 29900\<rparr>, \<lparr>t = 100, p = 30000\<rparr>] \<and>
   fetchDeltas BTC 200 250 = Fulfilled [\<lparr>t = 200, p = 30100\<rparr>, \<lparr>t = 250, p = 30200\<rparr>] \<and>
   snd (fetchCrypto fetchDeltas BTC \<lparr>min' = 50, max' = 250\<rparr> stateCovered)
     = [(BTC, 50, 100), (BTC, 200, 250)] \<and>
   cryptoCacheRef (fst (fetchCrypto fetchDeltas BTC \<lparr>min' = 50, max' = 250\<rparr> stateCovered))
     = Some \<lparr>min' = 50, max' = 250, crypto = BTC\<rparr> \<and>
   fetchCrypto fetchSecondFails BTC \<lparr>min' = 50, max' = 250\<rparr>
       (fst (fetchCrypto fetchDeltas BTC \<lparr>min' = 50, max' = 250\<rparr> stateCovered))
     = (fst (fetchCrypto fetchDeltas BTC \<lparr>min' = 50, max' = 250\<rparr> stateCovered), []) \<and>
   fetchCrypto fetchSecondFails BTC \<lparr>min' = 120, max' = 250\<rparr>
       (fst (fetchCrypto fetchDeltas BTC \<lparr>min' = 50, max' = 250\<rparr> stateCovered))
     = (fst (fetchCrypto fetchDeltas BTC \<lparr>min' = 50, max' = 250\<rparr> stateCovered), [])"
proof -
  let ?tr = "\<lparr>min' = 50, max' = 250\<rparr>"
  let ?s1 = "fst (fetchCrypto fetchDeltas BTC ?tr stateCovered)"
  have f: "fetchDeltas BTC 50 100 = Fulfilled [\<lparr>t = 50, p = 29900\<rparr>, \<lparr>t = 100, p = 30000\<rparr>]"
    "fetchDeltas BTC 200 250 = Fulfilled [\<lparr>t = 200, p = 30100\<rparr>, \<lparr>t = 250, p = 30200\<rparr>]"
    by (simp_all add: fetchDeltas_def)
  have calls: "snd (fetchCrypto fetchDeltas BTC ?tr stateCovered) = [(BTC, 50, 100), (BTC, 200, 250)]"
    by (simp add: fetchCrypto_calls fetchRanges_def stateCovered_def initialState_def)
  have ok: "\<forall>(c', a, b)\<in>set (snd (fetchCrypto fetchDeltas BTC ?tr stateCovered)).
      \<exists>prices. fetchDeltas c' a b = Fulfilled prices"
    unfolding calls by (simp add: fetchDeltas_def)
  have cache: "cryptoCacheRef ?s1 = Some \<lparr>min' = 50, max' = 250, crypto = BTC\<rparr>"
    by (simp add: fetchCrypto_def fetchRanges_def fetchDeltas_def stateCovered_def initialState_def)
  have ne: "cryptoPrices ?s1 \<noteq> []"
    by (simp add: fetchCrypto_def fetchRanges_def fetchDeltas_def stateCovered_def initialState_def
        dedupedPrices_def nth_Cons')
  note hit = fetchCrypto_covered_request_is_cache_hit[where fetchHistory = fetchDeltas
      and fetchAgain = fetchSecondFails, OF ok ne]
  from hit have same: "fetchCrypto fetchSecondFails BTC ?tr ?s1 = (?s1, [])" by blast
  from hit have "\<forall>cache again. cryptoCacheRef ?s1 = Some cache \<and>
      min' cache \<le> min' again \<and> max' again \<le> max' cache
      \<longrightarrow> fetchCrypto fetchSecondFails BTC again ?s1 = (?s1, [])" by blast
  from this[rule_format, of "\<lparr>min' = 50, max' = 250, crypto = BTC\<rparr>" "\<lparr>min' = 120, max' = 250\<rparr>"] cache
  have inside: "fetchCrypto fetchSecondFails BTC \<lparr>min' = 120, max' = 250\<rparr> ?s1 = (?s1, [])" by simp
  from f calls cache same inside show ?thesis by blast
qed

text \<open>
  C5, as the code has it. A first call for \<open>[100, 200]\<close> succeeds with no samples; the
  cache then covers \<open>[100, 200]\<close>, and the same request issues the same fetch again.
\<close>

theorem fetchCrypto_empty_result_is_fetched_again:
  "snd (fetchCrypto fetchNothing BTC \<lparr>min' = 100, max' = 200\<rparr> initialState) = [(BTC, 100, 200)] \<and>
   fetchNothing BTC 100 200 = Fulfilled [] \<and>
   stateEmptyCoverage = fst (fetchCrypto fetchNothing BTC \<lparr>min' = 100, max' = 200\<rparr> initialState) \<and>
   cryptoCacheRef stateEmptyCoverage = Some \<lparr>min' = 100, max' = 200, crypto = BTC\<rparr> \<and>
   snd (fetchCrypto fetchNothing BTC \<lparr>min' = 100, max' = 200\<rparr> stateEmptyCoverage) = [(BTC, 100, 200)]"
  by (simp add: stateEmptyCoverage_def fetchCrypto_def fetchEntireRange_def fetchNothing_def
      initialState_def)

lemma fetchCryptoPriceHistory_sorted:
  "fetchCryptoPriceHistory axiosGet c a b = Fulfilled prices \<Longrightarrow> sorted (map t prices)"
  by (auto simp: fetchCryptoPriceHistory_def split: option.splits Promise.splits)

lemma fetchCrypto_entire:
  assumes "cryptoCacheRef s = None \<or> (\<exists>cache. cryptoCacheRef s = Some cache \<and> crypto cache \<noteq> c)"
  shows "fetchCrypto f c tr s = fetchEntireRange f c tr s"
  using assms by (auto simp: fetchCrypto_def)

text \<open>
  The pagination loop ends when the upstream advances: with the candles, or because a
  request was refused or never answered. So the fetch is fulfilled when the upstream
  advances and answers every request.
\<close>

lemma klinesLoop_ends:
  assumes adv: "upstreamAdvances axiosGet"
  shows "\<exists>r. klinesLoop axiosGet symb cur endMs acc = Some r \<and>
           (r = Pending \<longrightarrow> (\<exists>params. axiosGet params = Pending)) \<and>
           (r = Rejected \<longrightarrow> (\<exists>params. axiosGet params = Rejected))"
proof (induction "nat (endMs - cur)" arbitrary: cur acc rule: less_induct)
  case less
  show ?case
  proof (cases "cur < endMs")
    case False
    then show ?thesis by (subst klinesLoop.simps) simp
  next
    case True
    let ?params = "\<lparr>symbol = symb, interval = ''5m'', startTime = cur, endTime = endMs, limit = 1000\<rparr>"
    show ?thesis
    proof (cases "axiosGet ?params")
      case Pending
      with True show ?thesis by (subst klinesLoop.simps) auto
    next
      case Rejected
      with True show ?thesis by (subst klinesLoop.simps) auto
    next
      case (Fulfilled klines)
      show ?thesis
      proof (cases "klines = []")
        case True
        with \<open>cur < endMs\<close> Fulfilled show ?thesis by (subst klinesLoop.simps) simp
      next
        case False
        with adv Fulfilled have "cur \<le> openTime (last klines)"
          unfolding upstreamAdvances_def by fastforce
        then have "nat (endMs - (openTime (last klines) + 60000)) < nat (endMs - cur)"
          using \<open>cur < endMs\<close> by simp
        from less[OF this, of "acc @ map (\<lambda>kline. \<lparr>t = openTime kline div 1000, p = closePrice kline\<rparr>) klines"]
        show ?thesis using \<open>cur < endMs\<close> Fulfilled False by (subst klinesLoop.simps) simp
      qed
    qed
  qed
qed

lemma fetchCryptoPriceHistory_Fulfilled:
  assumes adv: "upstreamAdvances axiosGet" and ans: "upstreamAnswers axiosGet"
  shows "\<exists>prices. fetchCryptoPriceHistory axiosGet c a b = Fulfilled prices"
proof -
  from klinesLoop_ends[OF adv] obtain r where
    r: "klinesLoop axiosGet (CRYPTO_SYMBOLS c) (a * 1000) (b * 1000) [] = Some r"
      "r = Pending \<longrightarrow> (\<exists>params. axiosGet params = Pending)"
      "r = Rejected \<longrightarrow> (\<exists>params. axiosGet params = Rejected)"
    by blast
  from ans have "\<And>params. axiosGet params \<noteq> Pending" "\<And>params. axiosGet params \<noteq> Rejected"
    unfolding upstreamAnswers_def by (metis Promise.distinct)+
  with r obtain ks where "r = Fulfilled ks" by (cases r) auto
  with r(1) show ?thesis by (simp add: fetchCryptoPriceHistory_def)
qed

text \<open>The three outcomes of the fetch of the entire range.\<close>

lemma fetchEntireRange_outcome:
  "fetchEntireRange f c tr s =
     ((case f c (min' tr) (max' tr) of
         Fulfilled prices \<Rightarrow>
           s\<lparr>cryptoPrices := prices,
             cryptoCacheRef := Some \<lparr>min' = min' tr, max' = max' tr, crypto = c\<rparr>,
             loadingCrypto := False\<rparr>
       | Rejected \<Rightarrow> s\<lparr>error := Some (fetchFailedMessage c), loadingCrypto := False\<rparr>
       | Pending \<Rightarrow> s\<lparr>loadingCrypto := True\<rparr>),
      [(c, min' tr, max' tr)])"
  by (simp add: fetchEntireRange_def Let_def split: Promise.splits)

text \<open>
  C6, amended. When there is no cache yet, or the cache belongs to another kind,
  \<open>fetchCrypto\<close> issues one fetch, of the entire requested interval, whatever the cached
  bounds are. When that fetch is fulfilled, the stored series becomes its result, which is
  sorted ascending by \<open>t\<close>, and the cache becomes the requested bounds under the new kind:
  nothing of the previous series is kept. And the fetch is fulfilled whenever the upstream
  advances and answers every request.
\<close>

theorem fetchCrypto_kind_change_fetches_entire_range:
  assumes "cryptoCacheRef s = None \<or> (\<exists>cache. cryptoCacheRef s = Some cache \<and> crypto cache \<noteq> c)"
  shows "snd (fetchCrypto (fetchCryptoPriceHistory axiosGet) c timeRange s)
           = [(c, min' timeRange, max' timeRange)] \<and>
         (\<forall>prices. fetchCryptoPriceHistory axiosGet c (min' timeRange) (max' timeRange) = Fulfilled prices
            \<longrightarrow> fst (fetchCrypto (fetchCryptoPriceHistory axiosGet) c timeRange s)
                  = s\<lparr>cryptoPrices := prices,
                      cryptoCacheRef := Some \<lparr>min' = min' timeRange, max' = max' timeRange, crypto = c\<rparr>,
                      loadingCrypto := False\<rparr>
                \<and> sorted (map t prices)) \<and>
         (upstreamAdvances axiosGet \<and> upstreamAnswers axiosGet
            \<longrightarrow> (\<exists>prices. fetchCryptoPriceHistory axiosGet c (min' timeRange) (max' timeRange)
                             = Fulfilled prices))"
  unfolding fetchCrypto_entire[OF assms] fetchEntireRange_outcome
  using fetchCryptoPriceHistory_sorted[of axiosGet c "min' timeRange" "max' timeRange"]
    fetchCryptoPriceHistory_Fulfilled[of axiosGet c "min' timeRange" "max' timeRange"]
  by simp

theorem fetchCrypto_kind_change_fetches_entire_range_witness:
  "crypto \<lparr>min' = 100, max' = 200, crypto = BTC\<rparr> \<noteq> ETH \<and>
   cryptoCacheRef stateCovered = Some \<lparr>min' = 100, max' = 200, crypto = BTC\<rparr> \<and>
   upstreamAdvances axiosTwoCandles \<and> upstreamAnswers axiosTwoCandles \<and>
   fetchCryptoPriceHistory axiosTwoCandles ETH 100 500
     = Fulfilled [\<lparr>t = 100, p = 30000\<rparr>, \<lparr>t = 400, p = 30100\<rparr>] \<and>
   fetchCrypto (fetchCryptoPriceHistory axiosTwoCandles) ETH \<lparr>min' = 100, max' = 500\<rparr> stateCovered
     = (stateCovered\<lparr>cryptoPrices := [\<lparr>t = 100, p = 30000\<rparr>, \<lparr>t = 400, p = 30100\<rparr>],
                     cryptoCacheRef := Some \<lparr>min' = 100, max' = 500, crypto = ETH\<rparr>\<rparr>,
        [(ETH, 100, 500)])"
proof -
  have c: "cryptoCacheRef stateCovered = Some \<lparr>min' = 100, max' = 200, crypto = BTC\<rparr>"
    by (simp add: stateCovered_def initialState_def)
  then have h: "cryptoCacheRef stateCovered = None \<or>
      (\<exists>cache. cryptoCacheRef stateCovered = Some cache \<and> crypto cache \<noteq> ETH)"
    by simp
  have adv: "upstreamAdvances axiosTwoCandles"
    by (auto simp: upstreamAdvances_def axiosTwoCandles_def split: if_splits)
  have ans: "upstreamAnswers axiosTwoCandles"
    by (simp add: upstreamAnswers_def axiosTwoCandles_def)
  note kc = fetchCrypto_kind_change_fetches_entire_range[OF h, of axiosTwoCandles "\<lparr>min' = 100, max' = 500\<rparr>"]
  from kc adv ans obtain prices where
    "fetchCryptoPriceHistory axiosTwoCandles ETH 100 500 = Fulfilled prices" by auto
  then have f: "fetchCryptoPriceHistory axiosTwoCandles ETH 100 500
     = Fulfilled [\<lparr>t = 100, p = 30000\<rparr>, \<lparr>t = 400, p = 30100\<rparr>]"
    by (simp add: fetchCryptoPriceHistory_def klinesLoop.simps axiosTwoCandles_def CRYPTO_SYMBOLS_def)
  from kc f
  have "fetchCrypto (fetchCryptoPriceHistory axiosTwoCandles) ETH \<lparr>min' = 100, max' = 500\<rparr> stateCovered
     = (stateCovered\<lparr>cryptoPrices := [\<lparr>t = 100, p = 30000\<rparr>, \<lparr>t = 400, p = 30100\<rparr>],
                     cryptoCacheRef := Some \<lparr>min' = 100, max' = 500, crypto = ETH\<rparr>,
                     loadingCrypto := False\<rparr>,
        [(ETH, 100, 500)])"
    by (simp add: prod_eq_iff)
  then have r: "fetchCrypto (fetchCryptoPriceHistory axiosTwoCandles) ETH \<lparr>min' = 100, max' = 500\<rparr> stateCovered
     = (stateCovered\<lparr>cryptoPrices := [\<lparr>t = 100, p = 30000\<rparr>, \<lparr>t = 400, p = 30100\<rparr>],
                     cryptoCacheRef := Some \<lparr>min' = 100, max' = 500, crypto = ETH\<rparr>\<rparr>,
        [(ETH, 100, 500)])"
    by (simp add: stateCovered_def initialState_def)
  from c adv ans f r show ?thesis by simp
qed

text \<open>
  C6, as the code has it. The cache covers \<open>[100, 200]\<close> for \<open>BTC\<close>, the kind becomes
  \<open>ETH\<close> and the fetch of the entire range is rejected: the stored series and the cache are
  still those of \<open>BTC\<close>, and the rows built from that state carry the \<open>BTC\<close> price under
  the property \<open>ETH\<close>.
\<close>

theorem fetchCrypto_rejected_kind_change_keeps_old_series:
  "cryptoCacheRef stateSwitch = Some \<lparr>min' = 100, max' = 200, crypto = BTC\<rparr> \<and>
   fetchCryptoPriceHistory axiosRejects ETH 100 200 = Rejected \<and>
   snd (fetchCrypto (fetchCryptoPriceHistory axiosRejects) ETH \<lparr>min' = 100, max' = 200\<rparr> stateSwitch)
     = [(ETH, 100, 200)] \<and>
   cryptoPrices (fst (fetchCrypto (fetchCryptoPriceHistory axiosRejects) ETH
                        \<lparr>min' = 100, max' = 200\<rparr> stateSwitch))
     = [\<lparr>t = 100, p = 30000\<rparr>, \<lparr>t = 200, p = 30100\<rparr>] \<and>
   cryptoCacheRef (fst (fetchCrypto (fetchCryptoPriceHistory axiosRejects) ETH
                          \<lparr>min' = 100, max' = 200\<rparr> stateSwitch))
     = Some \<lparr>min' = 100, max' = 200, crypto = BTC\<rparr> \<and>
   (chartData (+) ETH (fst (fetchCrypto (fetchCryptoPriceHistory axiosRejects) ETH
                              \<lparr>min' = 100, max' = 200\<rparr> stateSwitch)) ! 0) ''ETH'' = Some 30000"
proof -
  have f: "fetchCryptoPriceHistory axiosRejects ETH 100 200 = Rejected"
    by (simp add: fetchCryptoPriceHistory_def klinesLoop.simps axiosRejects_def)
  have st: "fetchCrypto (fetchCryptoPriceHistory axiosRejects) ETH \<lparr>min' = 100, max' = 200\<rparr> stateSwitch
     = (stateSwitch\<lparr>error := Some ''Failed to fetch ETH price data''\<rparr>, [(ETH, 100, 200)])"
    by (simp add: fetchCrypto_def fetchEntireRange_def f stateSwitch_def initialState_def
        fetchFailedMessage_def)
  have row: "(chartData (+) ETH (stateSwitch\<lparr>error := Some ''Failed to fetch ETH price data''\<rparr>) ! 0) ''ETH''
     = Some 30000"
    by (simp add: chartData_def chartTimestamps_def fillDataPoint_def addBetPrice_def Map_keys_def
      Map_get_def stateSwitch_def initialState_def addTimestamps_def findNearestPrice_def
      candidatesAt_def bsearch.simps)
  show ?thesis unfolding st using f row by (simp add: stateSwitch_def initialState_def)
qed


section \<open>Selecting and deselecting\<close>

lemma Map_delete_Map_set_new: "\<not> Map_has m k \<Longrightarrow> Map_delete (Map_set m k v) k = m"
  by (induction m) (auto simp: Map_has_def Map_delete_def)

lemma Map_get_Map_set_other: "k' \<noteq> k \<Longrightarrow> Map_get (Map_set m k' v) k = Map_get m k"
  by (induction m) (auto simp: Map_get_def)

lemma Map_has_iff_get: "Map_has m k \<longleftrightarrow> Map_get m k \<noteq> None"
  by (induction m) (auto simp: Map_has_def Map_get_def)

lemma handleBetToggle_calls:
  "snd (handleBetToggle f market ty s) =
     (if \<not> Map_has (selectedBets s) (generateBetKey (id' market) ty) \<and>
         \<not> Map_has (priceHistories s) (generateBetKey (id' market) ty)
      then [(case ty of YES \<Rightarrow> yesTokenId market | NO \<Rightarrow> noTokenId market,
             ParsedMarket.startDate market, 10)]
      else [])"
  by (auto simp: handleBetToggle_def Let_def split: Promise.splits)

text \<open>
  C7. When the fetch issued by a toggle fails, the selection is what it was before the
  toggle, the stored histories are untouched, and the error message names the market's
  question and the side; the whole state differs from the one before only in the error
  message and in the key no longer being marked as loading.
\<close>

theorem handleBetToggle_failed_fetch_rolls_back:
  assumes issued: "(tok, since, fidelity) \<in> set (snd (handleBetToggle fetchPriceHistory market ty s))"
    and rej: "fetchPriceHistory tok since fidelity = Rejected"
  shows "fst (handleBetToggle fetchPriceHistory market ty s) =
           s\<lparr>error := Some (''Failed to fetch price history for '' @ ParsedMarket.question market
                              @ '' ('' @ typeString ty @ '')''),
             loadingBets := loadingBets s - {generateBetKey (id' market) ty}\<rparr> \<and>
         selectedBets (fst (handleBetToggle fetchPriceHistory market ty s)) = selectedBets s \<and>
         priceHistories (fst (handleBetToggle fetchPriceHistory market ty s)) = priceHistories s"
proof -
  let ?k = "generateBetKey (id' market) ty"
  let ?tok = "case ty of YES \<Rightarrow> yesTokenId market | NO \<Rightarrow> noTokenId market"
  from issued have n: "\<not> Map_has (selectedBets s) ?k" "\<not> Map_has (priceHistories s) ?k"
    and c: "tok = ?tok" "since = ParsedMarket.startDate market" "fidelity = 10"
    by (auto simp: handleBetToggle_calls split: if_splits)
  from rej c have r: "fetchPriceHistory ?tok (ParsedMarket.startDate market) 10 = Rejected" by simp
  have "fst (handleBetToggle fetchPriceHistory market ty s) =
           s\<lparr>error := Some (''Failed to fetch price history for '' @ ParsedMarket.question market
                              @ '' ('' @ typeString ty @ '')''),
             loadingBets := loadingBets s - {?k}\<rparr>"
    using n r by (simp add: handleBetToggle_def Let_def Map_delete_Map_set_new)
  then show ?thesis by simp
qed

theorem handleBetToggle_failed_fetch_rolls_back_witness:
  "(''tokenB'', 0, 10) \<in> set (snd (handleBetToggle fetchRejects marketB YES stateA)) \<and>
   fetchRejects ''tokenB'' 0 10 = Rejected \<and>
   fst (handleBetToggle fetchRejects marketB YES stateA) =
     stateA\<lparr>error := Some ''Failed to fetch price history for Will B happen? (YES)''\<rparr> \<and>
   Map_keys (selectedBets (fst (handleBetToggle fetchRejects marketB YES stateA))) = [''A-YES'']"
proof -
  have i: "(''tokenB'', 0, 10) \<in> set (snd (handleBetToggle fetchRejects marketB YES stateA))"
    by (simp add: handleBetToggle_calls marketB_def stateA_def initialState_def generateBetKey_def
        Map_has_def)
  have r: "fetchRejects ''tokenB'' 0 10 = Rejected" by (simp add: fetchRejects_def)
  from handleBetToggle_failed_fetch_rolls_back[where fetchPriceHistory = fetchRejects, OF i r] i r
  show ?thesis
    by (simp add: marketB_def stateA_def initialState_def generateBetKey_def Map_keys_def)
qed

text \<open>
  C9. A toggle of a key whose series is stored issues no fetch and leaves the stored
  histories as they are, whether it selects or deselects the key; and no toggle, of this
  key or of another, removes the stored series. So re-selecting after a deselect finds
  it stored and fetches nothing.
\<close>

theorem handleBetToggle_stored_series_is_reused:
  assumes stored: "Map_get (priceHistories s) (generateBetKey (id' market) ty) = Some series"
  shows "snd (handleBetToggle fetchPriceHistory market ty s) = [] \<and>
         priceHistories (fst (handleBetToggle fetchPriceHistory market ty s)) = priceHistories s \<and>
         Map_get (priceHistories (fst (handleBetToggle fetchPriceHistory market' ty' s)))
           (generateBetKey (id' market) ty) = Some series"
proof -
  let ?k = "generateBetKey (id' market) ty"
  let ?k' = "generateBetKey (id' market') ty'"
  from stored have h: "Map_has (priceHistories s) ?k" by (simp add: Map_has_iff_get)
  then have 1: "snd (handleBetToggle fetchPriceHistory market ty s) = []"
    by (simp add: handleBetToggle_calls)
  from h have 2: "priceHistories (fst (handleBetToggle fetchPriceHistory market ty s)) = priceHistories s"
    by (simp add: handleBetToggle_def Let_def)
  have 3: "Map_get (priceHistories (fst (handleBetToggle fetchPriceHistory market' ty' s))) ?k = Some series"
  proof (cases "\<not> Map_has (selectedBets s) ?k' \<and> \<not> Map_has (priceHistories s) ?k'")
    case True
    with h have "?k' \<noteq> ?k" by auto
    with True stored show ?thesis
      by (auto simp: handleBetToggle_def Let_def Map_get_Map_set_other split: Promise.splits)
  next
    case False
    with stored show ?thesis by (auto simp: handleBetToggle_def Let_def)
  qed
  from 1 2 3 show ?thesis by simp
qed


theorem handleBetToggle_stored_series_is_reused_witness:
  "Map_get (priceHistories stateAB) (generateBetKey (id' marketA) YES)
     = Some [\<lparr>t = 10, p = 0.3\<rparr>, \<lparr>t = 20, p = 0.4\<rparr>] \<and>
   snd (handleBetToggle fetchRejects marketA YES stateAB) = [] \<and>
   Map_keys (selectedBets (fst (handleBetToggle fetchRejects marketA YES stateAB))) = [''B-YES''] \<and>
   Map_get (priceHistories (fst (handleBetToggle fetchRejects marketA YES stateAB)))
       (generateBetKey (id' marketA) YES)
     = Some [\<lparr>t = 10, p = 0.3\<rparr>, \<lparr>t = 20, p = 0.4\<rparr>] \<and>
   snd (handleBetToggle fetchRejects marketA YES
          (fst (handleBetToggle fetchRejects marketA YES stateAB))) = [] \<and>
   Map_keys (selectedBets (fst (handleBetToggle fetchRejects marketA YES
          (fst (handleBetToggle fetchRejects marketA YES stateAB))))) = [''B-YES'', ''A-YES'']"
proof -
  let ?s2 = "fst (handleBetToggle fetchRejects marketA YES stateAB)"
  have g: "Map_get (priceHistories stateAB) (generateBetKey (id' marketA) YES)
     = Some [\<lparr>t = 10, p = 0.3\<rparr>, \<lparr>t = 20, p = 0.4\<rparr>]"
    by (simp add: stateAB_def initialState_def marketA_def generateBetKey_def Map_get_def)
  note first = handleBetToggle_stored_series_is_reused[where fetchPriceHistory = fetchRejects
      and market' = marketA and ty' = YES, OF g]
  then have g2: "Map_get (priceHistories ?s2) (generateBetKey (id' marketA) YES)
     = Some [\<lparr>t = 10, p = 0.3\<rparr>, \<lparr>t = 20, p = 0.4\<rparr>]" by blast
  note second = handleBetToggle_stored_series_is_reused[where fetchPriceHistory = fetchRejects
      and market' = marketA and ty' = YES, OF g2]
  have k1: "Map_keys (selectedBets ?s2) = [''B-YES'']"
    by (simp add: handleBetToggle_def stateAB_def initialState_def marketA_def generateBetKey_def
        Map_has_def Map_delete_def Map_keys_def)
  have k2: "Map_keys (selectedBets (fst (handleBetToggle fetchRejects marketA YES ?s2)))
              = [''B-YES'', ''A-YES'']"
    by (simp add: handleBetToggle_def stateAB_def initialState_def marketA_def generateBetKey_def
        Map_has_def Map_delete_def Map_keys_def Let_def)
  from g first g2 second k1 k2 show ?thesis by blast
qed


end
